theory Spec2Isabelle
  imports Main
begin

section \<open>Text and integer conversions used by the extractor\<close>

text \<open>
  The extractor (\<^verbatim>\<open>src/inout_extractorUI.py\<close>) reads the text of six editable combo
  boxes, converts it with Python's \<^verbatim>\<open>int\<close>, and renders integers back with
  \<^verbatim>\<open>str\<close> and the format \<^verbatim>\<open>{i:02d}\<close>. Texts are modelled as \<^typ>\<open>string\<close>; a
  character outside ASCII is the sequence of its UTF-8 bytes. Python integers are
  unbounded and are modelled as \<^typ>\<open>int\<close>.
\<close>

datatype py_exception = ValueError | OSError | AttributeError

definition is_digit :: "char \<Rightarrow> bool" where
  "is_digit c = (48 \<le> (of_char c :: nat) \<and> (of_char c :: nat) \<le> 57)"

definition digit_val :: "char \<Rightarrow> nat" where
  "digit_val c = (of_char c :: nat) - 48"

definition digit_char :: "nat \<Rightarrow> char" where
  "digit_char d = char_of (48 + d)"

text \<open>
  The characters \<^verbatim>\<open>int\<close> skips around a numeral: tab, line feed, vertical tab, form
  feed, carriage return, the four separators 0x1C to 0x1F, and the space.
\<close>

definition is_space :: "char \<Rightarrow> bool" where
  "is_space c = ((of_char c :: nat) \<in> {9, 10, 11, 12, 13, 28, 29, 30, 31, 32})"

definition is_numeral_char :: "char \<Rightarrow> bool" where
  "is_numeral_char c = (is_digit c \<or> c = CHR ''_'')"

text \<open>
  No two underscores in a row (the scan of a numeral rejects the second one).
\<close>

fun no_double_underscore :: "string \<Rightarrow> bool" where
  "no_double_underscore (a # b # cs) =
     (\<not> (a = CHR ''_'' \<and> b = CHR ''_'') \<and> no_double_underscore (b # cs))"
| "no_double_underscore cs = True"

text \<open>
  The digits of a numeral in base 10: not empty, no leading, trailing or doubled
  underscore, every other character a decimal digit.
\<close>

definition valid_numeral :: "string \<Rightarrow> bool" where
  "valid_numeral b =
     (case b of
        [] \<Rightarrow> False
      | c # cs \<Rightarrow> c \<noteq> CHR ''_'' \<and> last (c # cs) \<noteq> CHR ''_''
                 \<and> list_all is_numeral_char (c # cs) \<and> no_double_underscore (c # cs))"

definition numeral_value :: "string \<Rightarrow> nat" where
  "numeral_value b = foldl (\<lambda>acc c. acc * 10 + digit_val c) 0 (filter is_digit b)"

text \<open>
  \<^verbatim>\<open>int(val)\<close> for a text \<^verbatim>\<open>val\<close>: leading white space, an optional sign, the
  numeral, trailing white space, and nothing else; any other text raises
  \<^verbatim>\<open>ValueError\<close>. The digits and white space are the ASCII ones (Python also reads
  the decimal digits and spaces of other scripts), and the interpreter's optional cap on
  the number of digits of a conversion is left out: the boxes hold a few characters.
\<close>

definition py_int :: "string \<Rightarrow> py_exception + int" where
  "py_int val =
     (let s = dropWhile is_space val;
          (neg, r) = (case s of
                        [] \<Rightarrow> (False, s)
                      | c # cs \<Rightarrow> if c = CHR ''-'' then (True, cs)
                                  else if c = CHR ''+'' then (False, cs)
                                  else (False, s));
          body = takeWhile is_numeral_char r;
          rest = dropWhile is_numeral_char r
      in if valid_numeral body \<and> list_all is_space rest
         then Inr (if neg then - int (numeral_value body) else int (numeral_value body))
         else Inl ValueError)"

text \<open>\<^verbatim>\<open>str(n)\<close> for an integer: the decimal digits, after a minus sign when negative.\<close>

fun nat_digits :: "nat \<Rightarrow> string" where
  "nat_digits n =
     (if n < 10 then [digit_char n] else nat_digits (n div 10) @ [digit_char (n mod 10)])"

declare nat_digits.simps [simp del]

definition py_str :: "int \<Rightarrow> string" where
  "py_str n = (if n < 0 then CHR ''-'' # nat_digits (nat (- n)) else nat_digits (nat n))"

text \<open>
  The format \<^verbatim>\<open>{i:0wd}\<close> on a non-negative integer: the decimal digits, filled with
  zeros on the left up to width \<open>w\<close>.
\<close>

definition zero_pad :: "nat \<Rightarrow> nat \<Rightarrow> string" where
  "zero_pad w n = replicate (w - length (nat_digits n)) (CHR ''0'') @ nat_digits n"

section \<open>Paths and time stamps\<close>

text \<open>
  \<^verbatim>\<open>os.path.basename\<close> and \<^verbatim>\<open>os.path.join\<close> in their POSIX form: the base name
  is what follows the last slash; joining puts one slash between the two parts unless
  the first ends with one, and an absolute second part replaces the first.
\<close>

definition basename :: "string \<Rightarrow> string" where
  "basename p = rev (takeWhile (\<lambda>c. c \<noteq> CHR ''/'') (rev p))"

definition path_join :: "string \<Rightarrow> string \<Rightarrow> string" where
  "path_join a b =
     (case b of
        c # cs \<Rightarrow> if c = CHR ''/'' then b
                  else if a = [] \<or> last a = CHR ''/'' then a @ b
                  else a @ CHR ''/'' # b
      | [] \<Rightarrow> if a = [] \<or> last a = CHR ''/'' then a @ b else a @ CHR ''/'' # b)"

definition OUTPUT_FOLDER :: string where
  "OUTPUT_FOLDER = ''./output''"

record datetime =
  year :: nat
  month :: nat
  day :: nat
  hour :: nat
  minute :: nat
  second :: nat

text \<open>
  \<^verbatim>\<open>strftime("%Y%m%d_%H%M%S")\<close>: the year in four digits, then two digits each, all
  filled with zeros as the library documents them.
\<close>

definition strftime :: "datetime \<Rightarrow> string" where
  "strftime t =
     zero_pad 4 (year t) @ zero_pad 2 (month t) @ zero_pad 2 (day t) @ ''_'' @
     zero_pad 2 (hour t) @ zero_pad 2 (minute t) @ zero_pad 2 (second t)"

text \<open>
  The time stamp as the specification writes it, \<^verbatim>\<open>YYYYMMDD_HHMMSS\<close>: fifteen
  characters, each digit taken from its decimal place.
\<close>

definition two_digits :: "nat \<Rightarrow> string" where
  "two_digits n = [digit_char (n div 10 mod 10), digit_char (n mod 10)]"

definition spec_timestamp :: "datetime \<Rightarrow> string" where
  "spec_timestamp t =
     [digit_char (year t div 1000 mod 10), digit_char (year t div 100 mod 10),
      digit_char (year t div 10 mod 10), digit_char (year t mod 10)] @
     two_digits (month t) @ two_digits (day t) @ ''_'' @
     two_digits (hour t) @ two_digits (minute t) @ two_digits (second t)"

section \<open>Widgets and the session\<close>

text \<open>
  A \<^verbatim>\<open>FocusComboBox\<close> is an editable combo box: its range (handed to the toolkit's
  validator), the items of its drop-down list and the text it currently shows.
\<close>

record combo =
  min_val :: int
  max_val :: int
  items :: "string list"
  current_text :: string

definition new_combo :: "int \<Rightarrow> int \<Rightarrow> combo" where
  "new_combo lo hi = \<lparr>min_val = lo, max_val = hi, items = [], current_text = []\<rparr>"

text \<open>
  \<^verbatim>\<open>addItems\<close>: the toolkit makes the first item the current one when the box was
  empty.
\<close>

definition addItems :: "string list \<Rightarrow> combo \<Rightarrow> combo" where
  "addItems xs c =
     (case xs of
        [] \<Rightarrow> c
      | x # _ \<Rightarrow> c\<lparr>items := items c @ xs,
                    current_text := (if items c = [] then x else current_text c)\<rparr>)"

definition create_time_wheels :: "combo \<times> combo \<times> combo" where
  "create_time_wheels =
     (addItems (map (zero_pad 2) [0..<24]) (new_combo 0 23),
      addItems (map (zero_pad 2) [0..<60]) (new_combo 0 59),
      addItems (map (zero_pad 2) [0..<60]) (new_combo 0 59))"

datatype layout_item = QLabel string | Combo combo | Spacing nat

text \<open>
  The frame of one video: item 0 of its layout is the title label, item 1 the layout
  of the time selectors (the Extract and Play buttons that follow hold no data).
\<close>

record video_frame =
  video_label :: string
  time_layout :: "layout_item list"

text \<open>The bytes of the film-projector sign and the space that start every title.\<close>

definition label_icon :: string where
  "label_icon = [CHR 0xF0, CHR 0x9F, CHR 0x93, CHR 0xBD, CHR 0x20]"

record session =
  video_list :: "string list"
  video_list_widget :: "video_frame list"
  current_combo :: "(nat \<times> nat) option"

definition init_session :: session where
  "init_session = \<lparr>video_list = [], video_list_widget = [], current_combo = None\<rparr>"

text \<open>
  The time layout \<^verbatim>\<open>add_video_ui\<close> builds for a new frame: thirteen items, the
  combo boxes at positions 1, 3, 5 (IN) and 8, 10, 12 (OUT).
\<close>

definition new_time_layout :: "layout_item list" where
  "new_time_layout =
     (let (in_hour, in_min, in_sec) = create_time_wheels;
          (out_hour, out_min, out_sec) = create_time_wheels
      in [QLabel ''IN:'', Combo in_hour, QLabel '':'', Combo in_min,
          QLabel '':'', Combo in_sec, Spacing 20,
          QLabel ''OUT:'', Combo out_hour, QLabel '':'', Combo out_min,
          QLabel '':'', Combo out_sec])"

definition add_video_ui :: "string \<Rightarrow> session \<Rightarrow> session" where
  "add_video_ui file_path s =
     (let frame = \<lparr>video_label = label_icon @ basename file_path,
                   time_layout = new_time_layout\<rparr>
      in s\<lparr>video_list_widget := video_list_widget s @ [frame]\<rparr>)"

text \<open>\<^verbatim>\<open>add_videos\<close>, for the list of files the file dialog returned.\<close>

fun add_videos :: "string list \<Rightarrow> session \<Rightarrow> session" where
  "add_videos [] s = s"
| "add_videos (file # files) s =
     add_videos files
       (if file \<notin> set (video_list s)
        then add_video_ui file (s\<lparr>video_list := video_list s @ [file]\<rparr>)
        else s)"

text \<open>
  Focus and the quick-insert bar. A combo box is addressed by the row of its frame and
  its position in that frame's time layout; \<^verbatim>\<open>setCurrentText\<close> on an editable box
  puts the text into its line edit as it is.
\<close>

definition focusInEvent :: "nat \<Rightarrow> nat \<Rightarrow> session \<Rightarrow> session" where
  "focusInEvent r p s = s\<lparr>current_combo := Some (r, p)\<rparr>"

definition setCurrentText :: "nat \<Rightarrow> nat \<Rightarrow> string \<Rightarrow> session \<Rightarrow> session" where
  "setCurrentText r p t s =
     (if r < length (video_list_widget s)
      then (let frame = video_list_widget s ! r in
            if p < length (time_layout frame)
            then (case time_layout frame ! p of
                    Combo c \<Rightarrow>
                      s\<lparr>video_list_widget :=
                          (video_list_widget s)
                            [r := frame\<lparr>time_layout :=
                                   (time_layout frame)[p := Combo (c\<lparr>current_text := t\<rparr>)]\<rparr>]\<rparr>
                  | _ \<Rightarrow> s)
            else s)
      else s)"

definition handle_quick_insert :: "int \<Rightarrow> session \<Rightarrow> session" where
  "handle_quick_insert v s =
     (case current_combo s of
        None \<Rightarrow> s
      | Some (r, p) \<Rightarrow> setCurrentText r p (py_str v) s)"

section \<open>Reading the time selectors\<close>

definition safe_int :: "string \<Rightarrow> int" where
  "safe_int val = (case py_int val of Inr n \<Rightarrow> n | Inl _ \<Rightarrow> 0)"

definition get_selected_time :: "combo \<Rightarrow> combo \<Rightarrow> combo \<Rightarrow> int" where
  "get_selected_time hour_combo minute_combo second_combo =
     (let h = safe_int (current_text hour_combo);
          m = safe_int (current_text minute_combo);
          s = safe_int (current_text second_combo)
      in h * 3600 + m * 60 + s)"

section \<open>Extraction\<close>

text \<open>
  What the program does to the outside is recorded as a list of events: the two kinds
  of message box (title and text) and the call of \<^verbatim>\<open>subprocess.run\<close> with its
  argument list. The outside answers through an environment: the wall clock read by
  \<^verbatim>\<open>datetime.now()\<close>, and the outcome of \<^verbatim>\<open>subprocess.run\<close>, which either
  returns the finished process with its exit code or raises (the executable cannot be
  started). A function returns its events and the exception that left it, if any.
\<close>

datatype event =
    Warning string string
  | Information string string
  | SubprocessRun "string list"

datatype run_result = Completed int | Raised py_exception

record env =
  now :: datetime
  subprocess_run :: "string list \<Rightarrow> run_result"

definition is_subprocess_run :: "event \<Rightarrow> bool" where
  "is_subprocess_run e = (case e of SubprocessRun _ \<Rightarrow> True | _ \<Rightarrow> False)"

definition output_file :: "datetime \<Rightarrow> string \<Rightarrow> string" where
  "output_file t input_file =
     (let timestamp = strftime t;
          filename = basename input_file
      in path_join OUTPUT_FOLDER (filename @ ''_clip_'' @ timestamp @ ''.mp4''))"

definition ffmpeg_args :: "datetime \<Rightarrow> string \<Rightarrow> int \<Rightarrow> int \<Rightarrow> string list" where
  "ffmpeg_args t input_file start_time end_time =
     [''ffmpeg'', ''-i'', input_file, ''-ss'', py_str start_time, ''-to'', py_str end_time,
      ''-c'', ''copy'', output_file t input_file]"

definition process_extraction ::
  "env \<Rightarrow> string \<Rightarrow> int \<Rightarrow> int \<Rightarrow> event list \<times> py_exception option" where
  "process_extraction e input_file start_time end_time =
     (let argv = ffmpeg_args (now e) input_file start_time end_time
      in case subprocess_run e argv of
           Completed rc \<Rightarrow> ([SubprocessRun argv], None)
         | Raised x \<Rightarrow> ([SubprocessRun argv], Some x))"

definition extract_video ::
  "env \<Rightarrow> string \<Rightarrow> combo \<Rightarrow> combo \<Rightarrow> combo \<Rightarrow> combo \<Rightarrow> combo \<Rightarrow> combo
     \<Rightarrow> event list \<times> py_exception option" where
  "extract_video e file_path in_hour in_min in_sec out_hour out_min out_sec =
     (let in_time = get_selected_time in_hour in_min in_sec;
          out_time = get_selected_time out_hour out_min out_sec
      in if in_time \<ge> out_time
         then ([Warning ''Invalid Time'' ''OUT time must be greater than IN time.''], None)
         else (case process_extraction e file_path in_time out_time of
                 (evs, Some x) \<Rightarrow> (evs, Some x)
               | (evs, None) \<Rightarrow>
                   (evs @ [Information ''Done''
                             (''Extraction completed for '' @ basename file_path @ ''!'')],
                    None)))"

section \<open>Extracting every row\<close>

text \<open>
  \<^verbatim>\<open>text.replace(old, "")\<close>: every occurrence of \<open>old\<close>, found from left to right
  without overlap, is dropped. An empty \<open>old\<close> leaves the text as it is.
\<close>

function str_remove_all :: "string \<Rightarrow> string \<Rightarrow> string" where
  "str_remove_all old s =
     (if old \<noteq> [] \<and> take (length old) s = old
      then str_remove_all old (drop (length old) s)
      else (case s of [] \<Rightarrow> [] | c # cs \<Rightarrow> c # str_remove_all old cs))"
  by pat_completeness auto
termination
proof (relation "measure (\<lambda>(old, s). length s)")
  fix old s :: string
  assume "old \<noteq> [] \<and> take (length old) s = old"
  then have "s \<noteq> []" and "0 < length old"
    by auto
  then show "((old, drop (length old) s), (old, s)) \<in> measure (\<lambda>(old, s). length s)"
    by simp
qed auto

declare str_remove_all.simps [simp del]

text \<open>Whether \<open>old\<close> occurs in \<open>s\<close> as a run of consecutive characters.\<close>

fun occurs :: "string \<Rightarrow> string \<Rightarrow> bool" where
  "occurs old [] = (old = [])"
| "occurs old (c # cs) = (take (length old) (c # cs) = old \<or> occurs old cs)"

text \<open>
  The path a row stands for: the title without the sign, looked up among the base
  names of the tracked paths; the first path that matches is taken.
\<close>

definition resolve_path :: "string list \<Rightarrow> video_frame \<Rightarrow> string option" where
  "resolve_path vl frame =
     (let label = str_remove_all label_icon (video_label frame)
      in find (\<lambda>path. basename path = label) vl)"

text \<open>
  The widget at a position of the time layout, used as a combo box. A position
  outside the layout, a spacing or a label there ends in \<^verbatim>\<open>AttributeError\<close> before
  anything else happens.
\<close>

definition combo_at :: "layout_item list \<Rightarrow> nat \<Rightarrow> py_exception + combo" where
  "combo_at l i =
     (if i < length l
      then (case l ! i of Combo c \<Rightarrow> Inr c | _ \<Rightarrow> Inl AttributeError)
      else Inl AttributeError)"

definition frame_combos ::
  "layout_item list \<Rightarrow> py_exception + (combo \<times> combo \<times> combo \<times> combo \<times> combo \<times> combo)" where
  "frame_combos l =
     (case (combo_at l 1, combo_at l 3, combo_at l 5, combo_at l 8, combo_at l 10, combo_at l 12) of
        (Inr in_hour, Inr in_min, Inr in_sec, Inr out_hour, Inr out_min, Inr out_sec) \<Rightarrow>
          Inr (in_hour, in_min, in_sec, out_hour, out_min, out_sec)
      | _ \<Rightarrow> Inl AttributeError)"

text \<open>\<^verbatim>\<open>extract_video\<close> on the selectors of a frame.\<close>

definition extract_frame :: "env \<Rightarrow> string \<Rightarrow> video_frame \<Rightarrow> event list \<times> py_exception option" where
  "extract_frame e video_path frame =
     (case frame_combos (time_layout frame) of
        Inl x \<Rightarrow> ([], Some x)
      | Inr (in_hour, in_min, in_sec, out_hour, out_min, out_sec) \<Rightarrow>
          extract_video e video_path in_hour in_min in_sec out_hour out_min out_sec)"

text \<open>
  The body of the loop of \<^verbatim>\<open>extract_all_videos\<close> for one row: a row whose path is
  not found (or is the empty text) is passed over.
\<close>

definition extract_row :: "env \<Rightarrow> string list \<Rightarrow> video_frame \<Rightarrow> event list \<times> py_exception option" where
  "extract_row e vl frame =
     (case resolve_path vl frame of
        None \<Rightarrow> ([], None)
      | Some video_path \<Rightarrow>
          if video_path = [] then ([], None) else extract_frame e video_path frame)"

text \<open>
  The loop, from row \<open>index\<close> on; row \<open>i\<close> meets the environment \<open>envs i\<close>. An
  exception ends the loop.
\<close>

fun extract_rows ::
  "(nat \<Rightarrow> env) \<Rightarrow> string list \<Rightarrow> nat \<Rightarrow> video_frame list \<Rightarrow> event list \<times> py_exception option" where
  "extract_rows envs vl index [] = ([], None)"
| "extract_rows envs vl index (frame # frames) =
     (case extract_row (envs index) vl frame of
        (evs, Some x) \<Rightarrow> (evs, Some x)
      | (evs, None) \<Rightarrow>
          (case extract_rows envs vl (Suc index) frames of
             (evs', r) \<Rightarrow> (evs @ evs', r)))"

definition extract_all_videos :: "(nat \<Rightarrow> env) \<Rightarrow> session \<Rightarrow> event list \<times> py_exception option" where
  "extract_all_videos envs s = extract_rows envs (video_list s) 0 (video_list_widget s)"

text \<open>
  Two ways the outside can answer a call of the tool: the process ends with exit code
  \<open>rc\<close>, or the executable is not installed and the call raises.
\<close>

definition tool_exits :: "int \<Rightarrow> string list \<Rightarrow> run_result" where
  "tool_exits rc argv = Completed rc"

definition tool_missing :: "string list \<Rightarrow> run_result" where
  "tool_missing argv = Raised OSError"

section \<open>Sessions the user can reach\<close>

text \<open>
  A session starts empty. The user adds the files a file dialog returned (paths of
  chosen files, none of them empty), gives the focus to a combo box, presses one of the
  sixty quick-insert buttons, or edits the text of a combo box (which texts the
  toolkit's validator lets through is left open: any text is admitted).
\<close>

inductive reachable :: "session \<Rightarrow> bool" where
  start: "reachable init_session"
| add: "reachable s \<Longrightarrow> [] \<notin> set files \<Longrightarrow> reachable (add_videos files s)"
| focus: "reachable s \<Longrightarrow> r < length (video_list_widget s)
            \<Longrightarrow> combo_at (time_layout (video_list_widget s ! r)) p = Inr c
            \<Longrightarrow> reachable (focusInEvent r p s)"
| quick_insert: "reachable s \<Longrightarrow> 0 \<le> v \<Longrightarrow> v < 60 \<Longrightarrow> reachable (handle_quick_insert v s)"
| edit: "reachable s \<Longrightarrow> reachable (setCurrentText r p t s)"

text \<open>
  What holds of every such session: the tracked paths are distinct and not empty, row
  \<open>i\<close> carries the title of path \<open>i\<close>, and every time layout has its six combo boxes.
\<close>

definition session_inv :: "session \<Rightarrow> bool" where
  "session_inv s =
     (distinct (video_list s) \<and> [] \<notin> set (video_list s)
      \<and> map video_label (video_list_widget s) = map (\<lambda>p. label_icon @ basename p) (video_list s)
      \<and> list_all (\<lambda>f. frame_combos (time_layout f) \<noteq> Inl AttributeError) (video_list_widget s))"

text \<open>The IN and OUT times a frame shows.\<close>

definition in_time :: "video_frame \<Rightarrow> int" where
  "in_time frame =
     (case frame_combos (time_layout frame) of
        Inr (in_hour, in_min, in_sec, out_hour, out_min, out_sec) \<Rightarrow>
          get_selected_time in_hour in_min in_sec
      | Inl _ \<Rightarrow> 0)"

definition out_time :: "video_frame \<Rightarrow> int" where
  "out_time frame =
     (case frame_combos (time_layout frame) of
        Inr (in_hour, in_min, in_sec, out_hour, out_min, out_sec) \<Rightarrow>
          get_selected_time out_hour out_min out_sec
      | Inl _ \<Rightarrow> 0)"

definition valid_datetime :: "datetime \<Rightarrow> bool" where
  "valid_datetime t =
     (1 \<le> year t \<and> year t \<le> 9999 \<and> 1 \<le> month t \<and> month t \<le> 12 \<and> 1 \<le> day t \<and> day t \<le> 31
      \<and> hour t < 24 \<and> minute t < 60 \<and> second t < 60)"

section \<open>Numerals: rendering and reading back\<close>

lemma is_digit_digit_char: "d < 10 \<Longrightarrow> is_digit (digit_char d)"
  by (simp add: is_digit_def digit_char_def)

lemma digit_val_digit_char: "d < 10 \<Longrightarrow> digit_val (digit_char d) = d"
  by (simp add: digit_val_def digit_char_def)

lemma is_digit_not_special:
  "is_digit c \<Longrightarrow> \<not> is_space c \<and> c \<noteq> CHR ''-'' \<and> c \<noteq> CHR ''+'' \<and> c \<noteq> CHR ''_''"
  by (auto simp: is_digit_def is_space_def)

lemma nat_digits_not_Nil: "nat_digits n \<noteq> []"
  by (subst nat_digits.simps) simp

lemma nat_digits_all_digits: "list_all is_digit (nat_digits n)"
proof (induction n rule: nat_digits.induct)
  case (1 n)
  show ?case
  proof (cases "n < 10")
    case True
    then show ?thesis
      by (subst nat_digits.simps) (simp add: is_digit_digit_char)
  next
    case False
    with 1 show ?thesis
      by (subst nat_digits.simps) (simp add: is_digit_digit_char)
  qed
qed

lemma numeral_value_snoc:
  "is_digit c \<Longrightarrow> numeral_value (ds @ [c]) = numeral_value ds * 10 + digit_val c"
  by (simp add: numeral_value_def)

lemma numeral_value_nat_digits: "numeral_value (nat_digits n) = n"
proof (induction n rule: nat_digits.induct)
  case (1 n)
  show ?case
  proof (cases "n < 10")
    case True
    then show ?thesis
      by (subst nat_digits.simps)
         (simp add: numeral_value_def is_digit_digit_char digit_val_digit_char)
  next
    case False
    with 1 have "numeral_value (nat_digits (n div 10)) = n div 10"
      by simp
    with False show ?thesis
      by (subst nat_digits.simps)
         (simp add: numeral_value_snoc is_digit_digit_char digit_val_digit_char)
  qed
qed

lemma no_double_underscore_digits: "list_all is_digit ds \<Longrightarrow> no_double_underscore ds"
  by (induction ds rule: no_double_underscore.induct) (auto dest: is_digit_not_special)

lemma valid_numeral_digits:
  assumes "ds \<noteq> []" and "list_all is_digit ds"
  shows "valid_numeral ds"
proof -
  from assms obtain c cs where ds: "ds = c # cs"
    by (cases ds) auto
  from assms have "is_digit (hd ds)" and "is_digit (last ds)"
    by (auto simp: list_all_iff)
  then have "hd ds \<noteq> CHR ''_''" and "last ds \<noteq> CHR ''_''"
    by (auto dest: is_digit_not_special)
  moreover from assms have "list_all is_numeral_char ds"
    by (auto simp: list_all_iff is_numeral_char_def)
  moreover from assms(2) have "no_double_underscore ds"
    by (rule no_double_underscore_digits)
  ultimately show ?thesis
    using ds by (simp add: valid_numeral_def)
qed

text \<open>A run of digits is read as its value, and as the negated value after a minus sign.\<close>

lemma py_int_digits:
  assumes "ds \<noteq> []" and "list_all is_digit ds"
  shows "py_int ds = Inr (int (numeral_value ds))"
    and "py_int (CHR ''-'' # ds) = Inr (- int (numeral_value ds))"
proof -
  from assms obtain c cs where ds: "ds = c # cs"
    by (cases ds) auto
  with assms have c: "is_digit c"
    by simp
  from assms have tw: "takeWhile is_numeral_char ds = ds" "dropWhile is_numeral_char ds = []"
    by (auto simp: list_all_iff is_numeral_char_def)
  have v: "valid_numeral ds"
    using assms by (rule valid_numeral_digits)
  from c have sp: "dropWhile is_space ds = ds"
    by (simp add: ds is_digit_not_special)
  from c have sg: "(case ds of [] \<Rightarrow> (False, ds)
       | c # cs \<Rightarrow> if c = CHR ''-'' then (True, cs)
                   else if c = CHR ''+'' then (False, cs) else (False, ds)) = (False, ds)"
    by (simp add: ds is_digit_not_special)
  show "py_int ds = Inr (int (numeral_value ds))"
    unfolding py_int_def Let_def sp sg by (simp add: tw v)
  have "\<not> is_space (CHR ''-'')"
    by (simp add: is_space_def)
  then show "py_int (CHR ''-'' # ds) = Inr (- int (numeral_value ds))"
    unfolding py_int_def by (simp add: tw v Let_def)
qed

lemma py_int_py_str: "py_int (py_str n) = Inr n"
  by (simp add: py_str_def py_int_digits nat_digits_not_Nil nat_digits_all_digits
      numeral_value_nat_digits)

lemma numeral_value_zeros: "numeral_value (replicate k (CHR ''0'') @ ds) = numeral_value ds"
proof -
  have z: "is_digit (CHR ''0'')"
    by (simp add: is_digit_def)
  have "foldl (\<lambda>acc c. acc * 10 + digit_val c) 0 (replicate k (CHR ''0'')) = 0"
    by (induction k) (simp_all add: digit_val_def)
  then show ?thesis
    by (simp add: numeral_value_def z)
qed

lemma py_int_zero_pad: "py_int (zero_pad w n) = Inr (int n)"
proof -
  have "zero_pad w n \<noteq> []"
    by (simp add: zero_pad_def nat_digits_not_Nil)
  moreover have "list_all is_digit (zero_pad w n)"
    using nat_digits_all_digits [of n] by (auto simp: zero_pad_def list_all_iff is_digit_def)
  ultimately have "py_int (zero_pad w n) = Inr (int (numeral_value (zero_pad w n)))"
    by (rule py_int_digits)
  then show ?thesis
    by (simp add: zero_pad_def numeral_value_zeros numeral_value_nat_digits)
qed

lemma safe_int_py_str: "safe_int (py_str n) = n"
  by (simp add: safe_int_def py_int_py_str)

lemma safe_int_zero_pad: "safe_int (zero_pad w n) = int n"
  by (simp add: safe_int_def py_int_zero_pad)

lemma py_int_error: "py_int t = Inl x \<Longrightarrow> x = ValueError"
  by (auto simp: py_int_def Let_def split: if_splits list.splits prod.splits)

section \<open>The time wheels\<close>

lemma wheel_items:
  "items (fst create_time_wheels) = map (zero_pad 2) [0..<24]"
  "items (fst (snd create_time_wheels)) = map (zero_pad 2) [0..<60]"
  "items (snd (snd create_time_wheels)) = map (zero_pad 2) [0..<60]"
  by (simp_all add: create_time_wheels_def addItems_def new_combo_def upt_conv_Cons)

lemma zero_pad_0: "zero_pad 2 0 = ''00''"
  by code_simp

lemma wheel_text:
  "current_text (fst create_time_wheels) = ''00''"
  "current_text (fst (snd create_time_wheels)) = ''00''"
  "current_text (snd (snd create_time_wheels)) = ''00''"
  by (simp_all add: create_time_wheels_def addItems_def new_combo_def upt_conv_Cons zero_pad_0)

lemma wheel_range:
  "min_val (fst create_time_wheels) = 0" "max_val (fst create_time_wheels) = 23"
  "min_val (fst (snd create_time_wheels)) = 0" "max_val (fst (snd create_time_wheels)) = 59"
  "min_val (snd (snd create_time_wheels)) = 0" "max_val (snd (snd create_time_wheels)) = 59"
  by (simp_all add: create_time_wheels_def addItems_def new_combo_def upt_conv_Cons)

lemma new_time_layout_eq:
  "new_time_layout =
     [QLabel ''IN:'', Combo (fst create_time_wheels), QLabel '':'',
      Combo (fst (snd create_time_wheels)), QLabel '':'', Combo (snd (snd create_time_wheels)),
      Spacing 20, QLabel ''OUT:'', Combo (fst create_time_wheels), QLabel '':'',
      Combo (fst (snd create_time_wheels)), QLabel '':'', Combo (snd (snd create_time_wheels))]"
  by (simp add: new_time_layout_def split_beta)

lemma frame_combos_new:
  "frame_combos new_time_layout =
     Inr (fst create_time_wheels, fst (snd create_time_wheels), snd (snd create_time_wheels),
          fst create_time_wheels, fst (snd create_time_wheels), snd (snd create_time_wheels))"
  by (simp add: new_time_layout_eq frame_combos_def combo_at_def)

lemma safe_int_00: "safe_int ''00'' = 0"
  by code_simp

section \<open>Reading the selectors\<close>

text \<open>
  C4. When the three boxes show items of the hour, minute and second wheels (item \<open>h\<close>
  of the 24 hour items, items \<open>m\<close> and \<open>s\<close> of the 60 minute and second items),
  \<^verbatim>\<open>get_selected_time\<close> returns \<open>h * 3600 + m * 60 + s\<close>; the items 1, 2 and 3 give
  3723.
\<close>

theorem get_selected_time_of_items:
  assumes "h < 24" and "m < 60" and "s < 60"
    and "current_text hour_combo = items (fst create_time_wheels) ! h"
    and "current_text minute_combo = items (fst (snd create_time_wheels)) ! m"
    and "current_text second_combo = items (snd (snd create_time_wheels)) ! s"
  shows "get_selected_time hour_combo minute_combo second_combo
           = int h * 3600 + int m * 60 + int s"
  using assms by (simp add: get_selected_time_def wheel_items safe_int_zero_pad)

theorem get_selected_time_of_items_witness:
  "get_selected_time (new_combo 0 23\<lparr>current_text := ''01''\<rparr>)
     (new_combo 0 59\<lparr>current_text := ''02''\<rparr>) (new_combo 0 59\<lparr>current_text := ''03''\<rparr>) = 3723"
proof -
  have z: "zero_pad 2 (Suc 0) = ''01''" "zero_pad 2 (Suc (Suc 0)) = ''02''" "zero_pad 2 3 = ''03''"
    by code_simp+
  have "current_text (new_combo 0 23\<lparr>current_text := ''01''\<rparr>) = items (fst create_time_wheels) ! 1"
    and "current_text (new_combo 0 59\<lparr>current_text := ''02''\<rparr>)
           = items (fst (snd create_time_wheels)) ! 2"
    and "current_text (new_combo 0 59\<lparr>current_text := ''03''\<rparr>)
           = items (snd (snd create_time_wheels)) ! 3"
    by (simp_all add: wheel_items z del: upt_Suc)
  from get_selected_time_of_items [OF _ _ _ this] show ?thesis
    by simp
qed

text \<open>
  Which texts \<^verbatim>\<open>int\<close> accepts: every character of an accepted text is white space, a
  sign, a digit or an underscore. A text with any other character, and the empty text,
  raise \<^verbatim>\<open>ValueError\<close>.
\<close>

lemma py_int_Inr_chars:
  assumes "py_int t = Inr v" and "c \<in> set t"
  shows "is_space c \<or> c = CHR ''-'' \<or> c = CHR ''+'' \<or> is_numeral_char c"
proof -
  define s where "s = dropWhile is_space t"
  define pr where "pr = (case s of [] \<Rightarrow> (False, s)
     | a # as \<Rightarrow> if a = CHR ''-'' then (True, as) else if a = CHR ''+'' then (False, as)
                 else (False, s))"
  define r where "r = snd pr"
  have "py_int t =
      (if valid_numeral (takeWhile is_numeral_char r) \<and> list_all is_space (dropWhile is_numeral_char r)
       then Inr (if fst pr then - int (numeral_value (takeWhile is_numeral_char r))
                 else int (numeral_value (takeWhile is_numeral_char r)))
       else Inl ValueError)"
    unfolding py_int_def Let_def s_def [symmetric] pr_def [symmetric] r_def
    by (simp add: case_prod_beta)
  with assms(1) have rest: "list_all is_space (dropWhile is_numeral_char r)"
    by (simp split: if_splits)
  have "t = takeWhile is_space t @ s"
    by (simp add: s_def)
  then have "set t = set (takeWhile is_space t) \<union> set s"
    by (metis set_append)
  moreover have "set s \<subseteq> set r \<union> {CHR ''-'', CHR ''+''}"
    by (auto simp: r_def pr_def split: list.splits if_splits)
  moreover have "r = takeWhile is_numeral_char r @ dropWhile is_numeral_char r"
    by simp
  then have "set r = set (takeWhile is_numeral_char r) \<union> set (dropWhile is_numeral_char r)"
    by (metis set_append)
  ultimately consider "c \<in> set (takeWhile is_space t)" | "c = CHR ''-''" | "c = CHR ''+''"
    | "c \<in> set (takeWhile is_numeral_char r)" | "c \<in> set (dropWhile is_numeral_char r)"
    using assms(2) by auto
  then show ?thesis
  proof cases
    case 1
    then show ?thesis by (auto dest: set_takeWhileD)
  next
    case 4
    then show ?thesis by (auto dest: set_takeWhileD)
  next
    case 5
    with rest show ?thesis by (auto simp: list_all_iff)
  qed auto
qed

lemma py_int_other_char:
  assumes "c \<in> set t"
    and "\<not> is_space c" and "c \<noteq> CHR ''-''" and "c \<noteq> CHR ''+''" and "\<not> is_numeral_char c"
  shows "py_int t = Inl ValueError"
proof (cases "py_int t")
  case (Inl x)
  then show ?thesis
    by (simp add: py_int_error)
next
  case (Inr v)
  from py_int_Inr_chars [OF this assms(1)] assms(2-) show ?thesis
    by simp
qed

lemma py_int_empty: "py_int [] = Inl ValueError"
  by (simp add: py_int_def valid_numeral_def)

text \<open>
  C5 (as amended). \<^verbatim>\<open>get_selected_time\<close> checks no range: a text that renders an
  integer, whatever its value or sign, is read as that integer, and three such texts give
  \<open>h * 3600 + m * 60 + s\<close>; only a text that \<^verbatim>\<open>int\<close> rejects is read as 0.
\<close>

theorem get_selected_time_no_range_check:
  "safe_int (py_str n) = n
   \<and> (py_int t = Inl ValueError \<longrightarrow> safe_int t = 0)
   \<and> get_selected_time (hour_combo\<lparr>current_text := py_str h\<rparr>)
         (minute_combo\<lparr>current_text := py_str m\<rparr>) (second_combo\<lparr>current_text := py_str s\<rparr>)
       = h * 3600 + m * 60 + s"
  by (simp add: get_selected_time_def safe_int_py_str) (simp add: safe_int_def)

theorem get_selected_time_no_range_check_witness:
  "safe_int ''99'' = 99 \<and> safe_int ''abc'' = 0
   \<and> get_selected_time (new_combo 0 23\<lparr>current_text := ''99''\<rparr>)
         (new_combo 0 59\<lparr>current_text := ''-5''\<rparr>) (new_combo 0 59\<lparr>current_text := ''60''\<rparr>)
       = 356160"
proof -
  have s: "py_str 99 = ''99''" "py_str (- 5) = ''-5''" "py_str 60 = ''60''"
    by code_simp+
  have e: "py_int ''abc'' = Inl ValueError"
    by code_simp
  from get_selected_time_no_range_check [where n = 99 and t = "''abc''"
      and hour_combo = "new_combo 0 23" and h = 99 and minute_combo = "new_combo 0 59" and m = "- 5"
      and second_combo = "new_combo 0 59" and s = 60] e
  show ?thesis
    by (simp add: s)
qed

text \<open>
  C5 as stated fails: with one video added and the focus on the IN hour box (range 0 to
  23), the quick-insert button 59 leaves the text \<^verbatim>\<open>59\<close> in the box, and the IN time
  is read as 59 hours, 212400 seconds, not as 0.
\<close>

theorem quick_insert_hour_counterexample:
  "reachable (handle_quick_insert 59 (focusInEvent 0 1 (add_videos [''/v/a.mp4''] init_session)))
   \<and> time_layout (video_list_widget
       (handle_quick_insert 59 (focusInEvent 0 1 (add_videos [''/v/a.mp4''] init_session))) ! 0) ! 1
     = Combo ((fst create_time_wheels)\<lparr>current_text := ''59''\<rparr>)
   \<and> max_val (fst create_time_wheels) = 23
   \<and> safe_int ''59'' = 59
   \<and> in_time (video_list_widget
       (handle_quick_insert 59 (focusInEvent 0 1 (add_videos [''/v/a.mp4''] init_session))) ! 0)
     = 212400"
proof -
  have s: "py_str 59 = ''59''" and v: "safe_int ''59'' = 59"
    by code_simp+
  have "reachable (add_videos [''/v/a.mp4''] init_session)"
    by (rule reachable.add [OF reachable.start]) simp
  then have "reachable (focusInEvent 0 1 (add_videos [''/v/a.mp4''] init_session))"
    by (rule reachable.focus [where c = "fst create_time_wheels"])
       (simp_all add: init_session_def add_video_ui_def new_time_layout_eq combo_at_def)
  then have r: "reachable (handle_quick_insert 59
      (focusInEvent 0 1 (add_videos [''/v/a.mp4''] init_session)))"
    by (rule reachable.quick_insert) simp_all
  have q: "video_list_widget
       (handle_quick_insert 59 (focusInEvent 0 1 (add_videos [''/v/a.mp4''] init_session))) ! 0
     = \<lparr>video_label = label_icon @ basename ''/v/a.mp4'',
        time_layout = new_time_layout[1 := Combo ((fst create_time_wheels)\<lparr>current_text := ''59''\<rparr>)]\<rparr>"
    by (simp add: init_session_def add_video_ui_def handle_quick_insert_def focusInEvent_def
        setCurrentText_def s new_time_layout_eq)
  show ?thesis
    unfolding q using r
    by (simp add: new_time_layout_eq in_time_def frame_combos_def combo_at_def
        get_selected_time_def wheel_text wheel_range v safe_int_00)
qed

text \<open>
  C6. A text that \<^verbatim>\<open>int\<close> rejects counts as 0 seconds in whichever of the three
  boxes it stands, and \<^verbatim>\<open>get_selected_time\<close> returns the sum of the other two fields
  (it is a total function: no exception leaves it).
\<close>

theorem non_numeric_field_is_zero:
  assumes "py_int t = Inl ValueError"
  shows "safe_int t = 0
    \<and> get_selected_time (hour_combo\<lparr>current_text := t\<rparr>) minute_combo second_combo
        = safe_int (current_text minute_combo) * 60 + safe_int (current_text second_combo)
    \<and> get_selected_time hour_combo (minute_combo\<lparr>current_text := t\<rparr>) second_combo
        = safe_int (current_text hour_combo) * 3600 + safe_int (current_text second_combo)
    \<and> get_selected_time hour_combo minute_combo (second_combo\<lparr>current_text := t\<rparr>)
        = safe_int (current_text hour_combo) * 3600 + safe_int (current_text minute_combo) * 60"
proof -
  from assms have "safe_int t = 0"
    by (simp add: safe_int_def)
  then show ?thesis
    by (simp add: get_selected_time_def)
qed

theorem non_numeric_field_is_zero_witness:
  "safe_int ''abc'' = 0
   \<and> get_selected_time (new_combo 0 23\<lparr>current_text := ''abc''\<rparr>)
        (new_combo 0 59\<lparr>current_text := ''02''\<rparr>) (new_combo 0 59\<lparr>current_text := ''03''\<rparr>) = 123"
proof -
  have e: "py_int ''abc'' = Inl ValueError"
    by code_simp
  have v: "safe_int ''02'' = 2" "safe_int ''03'' = 3"
    by code_simp+
  from non_numeric_field_is_zero [OF e, of "new_combo 0 23" "new_combo 0 59\<lparr>current_text := ''02''\<rparr>"
      "new_combo 0 59\<lparr>current_text := ''03''\<rparr>"]
  show ?thesis
    by (simp add: v)
qed

section \<open>One extraction\<close>

lemma example_times:
  "get_selected_time (new_combo 0 23\<lparr>current_text := ''00''\<rparr>)
     (new_combo 0 59\<lparr>current_text := ''00''\<rparr>) (new_combo 0 59\<lparr>current_text := ''00''\<rparr>) = 0"
  "get_selected_time (new_combo 0 23\<lparr>current_text := ''00''\<rparr>)
     (new_combo 0 59\<lparr>current_text := ''00''\<rparr>) (new_combo 0 59\<lparr>current_text := ''10''\<rparr>) = 10"
proof -
  have "safe_int ''00'' = 0" "safe_int ''10'' = 10"
    by code_simp+
  then show
    "get_selected_time (new_combo 0 23\<lparr>current_text := ''00''\<rparr>)
       (new_combo 0 59\<lparr>current_text := ''00''\<rparr>) (new_combo 0 59\<lparr>current_text := ''00''\<rparr>) = 0"
    "get_selected_time (new_combo 0 23\<lparr>current_text := ''00''\<rparr>)
       (new_combo 0 59\<lparr>current_text := ''00''\<rparr>) (new_combo 0 59\<lparr>current_text := ''10''\<rparr>) = 10"
    by (simp_all add: get_selected_time_def)
qed

lemma example_output:
  "output_file \<lparr>year = 2025, month = 2, day = 27, hour = 16, minute = 10, second = 0\<rparr> ''/v/a.mp4''
     = ''./output/a.mp4_clip_20250227_161000.mp4''"
  "basename ''/v/a.mp4'' = ''a.mp4''"
  "py_str 0 = ''0''" "py_str 10 = ''10''"
  by code_simp+

text \<open>
  C1. When the IN time is not below the OUT time, \<^verbatim>\<open>extract_video\<close> shows the warning
  and returns: its only event is the warning box, whatever the environment, and no call
  of the external tool is among its events.
\<close>

theorem extract_video_rejects_invalid_range:
  assumes "get_selected_time in_hour in_min in_sec \<ge> get_selected_time out_hour out_min out_sec"
  shows "extract_video e file_path in_hour in_min in_sec out_hour out_min out_sec
           = ([Warning ''Invalid Time'' ''OUT time must be greater than IN time.''], None)
    \<and> filter is_subprocess_run
         (fst (extract_video e file_path in_hour in_min in_sec out_hour out_min out_sec)) = []"
  using assms by (simp add: extract_video_def is_subprocess_run_def)

theorem extract_video_rejects_invalid_range_witness:
  "extract_video
     \<lparr>now = \<lparr>year = 2025, month = 2, day = 27, hour = 16, minute = 10, second = 0\<rparr>,
      subprocess_run = tool_exits 0\<rparr>
     ''/v/a.mp4''
     (new_combo 0 23\<lparr>current_text := ''00''\<rparr>) (new_combo 0 59\<lparr>current_text := ''00''\<rparr>)
     (new_combo 0 59\<lparr>current_text := ''10''\<rparr>)
     (new_combo 0 23\<lparr>current_text := ''00''\<rparr>) (new_combo 0 59\<lparr>current_text := ''00''\<rparr>)
     (new_combo 0 59\<lparr>current_text := ''10''\<rparr>)
   = ([Warning ''Invalid Time'' ''OUT time must be greater than IN time.''], None)"
proof -
  have "get_selected_time (new_combo 0 23\<lparr>current_text := ''00''\<rparr>)
          (new_combo 0 59\<lparr>current_text := ''00''\<rparr>) (new_combo 0 59\<lparr>current_text := ''10''\<rparr>)
        \<ge> get_selected_time (new_combo 0 23\<lparr>current_text := ''00''\<rparr>)
          (new_combo 0 59\<lparr>current_text := ''00''\<rparr>) (new_combo 0 59\<lparr>current_text := ''10''\<rparr>)"
    by simp
  from extract_video_rejects_invalid_range [OF this] show ?thesis
    by simp
qed

text \<open>
  C2. When the IN time is below the OUT time, \<^verbatim>\<open>extract_video\<close> calls the external
  tool exactly once, with the arguments \<^verbatim>\<open>ffmpeg -i input -ss start -to end -c copy output\<close>,
  where start and end are the IN and OUT times written as decimal integers (reading them
  back gives the same integers).
\<close>

theorem extract_video_runs_tool_once:
  assumes "get_selected_time in_hour in_min in_sec < get_selected_time out_hour out_min out_sec"
  shows "filter is_subprocess_run
           (fst (extract_video e file_path in_hour in_min in_sec out_hour out_min out_sec))
         = [SubprocessRun
              [''ffmpeg'', ''-i'', file_path,
               ''-ss'', py_str (get_selected_time in_hour in_min in_sec),
               ''-to'', py_str (get_selected_time out_hour out_min out_sec),
               ''-c'', ''copy'', output_file (now e) file_path]]
    \<and> py_int (py_str (get_selected_time in_hour in_min in_sec))
          = Inr (get_selected_time in_hour in_min in_sec)
    \<and> py_int (py_str (get_selected_time out_hour out_min out_sec))
          = Inr (get_selected_time out_hour out_min out_sec)"
  using assms
  by (simp add: extract_video_def process_extraction_def ffmpeg_args_def is_subprocess_run_def
      py_int_py_str Let_def split: run_result.split)

theorem extract_video_runs_tool_once_witness:
  "filter is_subprocess_run (fst (extract_video
     \<lparr>now = \<lparr>year = 2025, month = 2, day = 27, hour = 16, minute = 10, second = 0\<rparr>,
      subprocess_run = tool_exits 1\<rparr>
     ''/v/a.mp4''
     (new_combo 0 23\<lparr>current_text := ''00''\<rparr>) (new_combo 0 59\<lparr>current_text := ''00''\<rparr>)
     (new_combo 0 59\<lparr>current_text := ''00''\<rparr>)
     (new_combo 0 23\<lparr>current_text := ''00''\<rparr>) (new_combo 0 59\<lparr>current_text := ''00''\<rparr>)
     (new_combo 0 59\<lparr>current_text := ''10''\<rparr>)))
   = [SubprocessRun [''ffmpeg'', ''-i'', ''/v/a.mp4'', ''-ss'', ''0'', ''-to'', ''10'', ''-c'', ''copy'',
        ''./output/a.mp4_clip_20250227_161000.mp4'']]"
proof -
  have "get_selected_time (new_combo 0 23\<lparr>current_text := ''00''\<rparr>)
          (new_combo 0 59\<lparr>current_text := ''00''\<rparr>) (new_combo 0 59\<lparr>current_text := ''00''\<rparr>)
        < get_selected_time (new_combo 0 23\<lparr>current_text := ''00''\<rparr>)
          (new_combo 0 59\<lparr>current_text := ''00''\<rparr>) (new_combo 0 59\<lparr>current_text := ''10''\<rparr>)"
    by (simp add: example_times)
  from extract_video_runs_tool_once [OF this] show ?thesis
    by (simp add: example_times example_output)
qed

text \<open>
  C9 (as amended). For a valid range, whenever the call of the external tool returns,
  \<^verbatim>\<open>extract_video\<close> reports \<^verbatim>\<open>Done\<close> whatever the exit code \<open>rc\<close>, which is never
  looked at; when the call itself raises, the exception leaves \<^verbatim>\<open>extract_video\<close> and
  \<^verbatim>\<open>Done\<close> is not reported.
\<close>

theorem extract_video_done_unless_raise:
  assumes "get_selected_time in_hour in_min in_sec < get_selected_time out_hour out_min out_sec"
    and "argv = ffmpeg_args (now e) file_path (get_selected_time in_hour in_min in_sec)
                  (get_selected_time out_hour out_min out_sec)"
  shows "(subprocess_run e argv = Completed rc \<longrightarrow>
            extract_video e file_path in_hour in_min in_sec out_hour out_min out_sec
              = ([SubprocessRun argv,
                  Information ''Done'' (''Extraction completed for '' @ basename file_path @ ''!'')],
                 None))
    \<and> (subprocess_run e argv = Raised x \<longrightarrow>
            extract_video e file_path in_hour in_min in_sec out_hour out_min out_sec
              = ([SubprocessRun argv], Some x))"
  using assms by (simp add: extract_video_def process_extraction_def Let_def)

theorem extract_video_done_unless_raise_witness:
  "extract_video
     \<lparr>now = \<lparr>year = 2025, month = 2, day = 27, hour = 16, minute = 10, second = 0\<rparr>,
      subprocess_run = tool_exits 1\<rparr>
     ''/v/a.mp4''
     (new_combo 0 23\<lparr>current_text := ''00''\<rparr>) (new_combo 0 59\<lparr>current_text := ''00''\<rparr>)
     (new_combo 0 59\<lparr>current_text := ''00''\<rparr>)
     (new_combo 0 23\<lparr>current_text := ''00''\<rparr>) (new_combo 0 59\<lparr>current_text := ''00''\<rparr>)
     (new_combo 0 59\<lparr>current_text := ''10''\<rparr>)
   = ([SubprocessRun [''ffmpeg'', ''-i'', ''/v/a.mp4'', ''-ss'', ''0'', ''-to'', ''10'', ''-c'', ''copy'',
         ''./output/a.mp4_clip_20250227_161000.mp4''],
       Information ''Done'' ''Extraction completed for a.mp4!''],
      None)"
proof -
  have "get_selected_time (new_combo 0 23\<lparr>current_text := ''00''\<rparr>)
          (new_combo 0 59\<lparr>current_text := ''00''\<rparr>) (new_combo 0 59\<lparr>current_text := ''00''\<rparr>)
        < get_selected_time (new_combo 0 23\<lparr>current_text := ''00''\<rparr>)
          (new_combo 0 59\<lparr>current_text := ''00''\<rparr>) (new_combo 0 59\<lparr>current_text := ''10''\<rparr>)"
    by (simp add: example_times)
  from extract_video_done_unless_raise [OF this refl, where rc = 1 and x = OSError
      and e = "\<lparr>now = \<lparr>year = 2025, month = 2, day = 27, hour = 16, minute = 10, second = 0\<rparr>,
      subprocess_run = tool_exits 1\<rparr>" and file_path = "''/v/a.mp4''"]
  show ?thesis
    by (simp add: example_times example_output ffmpeg_args_def tool_exits_def)
qed

text \<open>
  C9 as stated fails: when the executable is not installed, the call raises, and
  \<^verbatim>\<open>extract_video\<close> ends with that exception after the call, without the
  \<^verbatim>\<open>Done\<close> box.
\<close>

theorem extract_video_tool_missing_counterexample:
  "extract_video
     \<lparr>now = \<lparr>year = 2025, month = 2, day = 27, hour = 16, minute = 10, second = 0\<rparr>,
      subprocess_run = tool_missing\<rparr>
     ''/v/a.mp4''
     (new_combo 0 23\<lparr>current_text := ''00''\<rparr>) (new_combo 0 59\<lparr>current_text := ''00''\<rparr>)
     (new_combo 0 59\<lparr>current_text := ''00''\<rparr>)
     (new_combo 0 23\<lparr>current_text := ''00''\<rparr>) (new_combo 0 59\<lparr>current_text := ''00''\<rparr>)
     (new_combo 0 59\<lparr>current_text := ''10''\<rparr>)
   = ([SubprocessRun [''ffmpeg'', ''-i'', ''/v/a.mp4'', ''-ss'', ''0'', ''-to'', ''10'', ''-c'', ''copy'',
         ''./output/a.mp4_clip_20250227_161000.mp4'']],
      Some OSError)"
  by (simp add: extract_video_def process_extraction_def ffmpeg_args_def tool_missing_def
      example_times example_output)

section \<open>The name of the output file\<close>

lemma nat_digits_small: "n < 10 \<Longrightarrow> nat_digits n = [digit_char n]"
  by (subst nat_digits.simps) simp

lemma nat_digits_step: "\<not> n < 10 \<Longrightarrow> nat_digits n = nat_digits (n div 10) @ [digit_char (n mod 10)]"
  by (subst nat_digits.simps) simp

lemma digit_char_0: "digit_char 0 = CHR ''0''"
  by code_simp

lemma zero_pad_two_digits:
  assumes "n < 100"
  shows "zero_pad 2 n = two_digits n"
proof (cases "n < 10")
  case True
  then have "nat_digits n = [digit_char n]"
    by (simp add: nat_digits_small)
  with True show ?thesis
    by (simp add: zero_pad_def two_digits_def digit_char_0)
next
  case False
  with assms have "n div 10 < 10"
    by simp
  with False have "nat_digits n = [digit_char (n div 10), digit_char (n mod 10)]"
    by (simp add: nat_digits_step nat_digits_small)
  with \<open>n div 10 < 10\<close> show ?thesis
    by (simp add: zero_pad_def two_digits_def)
qed

lemma replicate_pad: "replicate 3 c = [c, c, c]" "replicate 2 c = [c, c]"
  by (simp_all add: eval_nat_numeral)

lemma zero_pad_four_digits:
  assumes "n < 10000"
  shows "zero_pad 4 n =
    [digit_char (n div 1000 mod 10), digit_char (n div 100 mod 10),
     digit_char (n div 10 mod 10), digit_char (n mod 10)]"
proof -
  have d: "n div 10 div 10 = n div 100" "n div 100 div 10 = n div 1000"
    by (simp_all add: div_mult2_eq [symmetric])
  consider "n < 10" | "10 \<le> n" "n < 100" | "100 \<le> n" "n < 1000" | "1000 \<le> n"
    by linarith
  then show ?thesis
  proof cases
    case 1
    then have "nat_digits n = [digit_char n]"
      by (simp add: nat_digits_small)
    moreover from 1 have "n div 10 = 0" "n div 100 = 0" "n div 1000 = 0"
      by simp_all
    ultimately show ?thesis
      using 1 by (simp add: zero_pad_def replicate_pad digit_char_0)
  next
    case 2
    then have "\<not> n < 10" "n div 10 < 10"
      by simp_all
    then have "nat_digits n = [digit_char (n div 10), digit_char (n mod 10)]"
      by (simp add: nat_digits_step nat_digits_small)
    moreover from 2 have "n div 100 = 0" "n div 1000 = 0" "n div 10 mod 10 = n div 10"
      by simp_all
    ultimately show ?thesis
      by (simp add: zero_pad_def replicate_pad digit_char_0)
  next
    case 3
    then have "\<not> n < 10" "\<not> n div 10 < 10" "n div 100 < 10"
      by simp_all
    then have "nat_digits n = [digit_char (n div 100), digit_char (n div 10 mod 10), digit_char (n mod 10)]"
      by (simp add: nat_digits_step [of n] nat_digits_step [of "n div 10"] nat_digits_small d)
    moreover from 3 have "n div 1000 = 0" "n div 100 mod 10 = n div 100"
      by simp_all
    ultimately show ?thesis
      by (simp add: zero_pad_def replicate_pad digit_char_0)
  next
    case 4
    with assms have "\<not> n < 10" "\<not> n div 10 < 10" "\<not> n div 100 < 10" "n div 1000 < 10"
      by simp_all
    then have "nat_digits n = [digit_char (n div 1000), digit_char (n div 100 mod 10),
        digit_char (n div 10 mod 10), digit_char (n mod 10)]"
      by (simp add: nat_digits_step [of n] nat_digits_step [of "n div 10"]
          nat_digits_step [of "n div 100"] nat_digits_small d)
    moreover from 4 assms have "n div 1000 mod 10 = n div 1000"
      by simp
    ultimately show ?thesis
      by (simp add: zero_pad_def replicate_pad)
  qed
qed

lemma strftime_spec: "valid_datetime t \<Longrightarrow> strftime t = spec_timestamp t"
  by (simp add: valid_datetime_def strftime_def spec_timestamp_def zero_pad_two_digits
      zero_pad_four_digits)

lemma basename_no_slash: "CHR ''/'' \<notin> set (basename p)"
  by (auto simp: basename_def dest: set_takeWhileD)

lemma path_join_output:
  "path_join OUTPUT_FOLDER (basename p @ CHR ''_'' # x) = ''./output/'' @ basename p @ CHR ''_'' # x"
proof (cases "basename p")
  case Nil
  then show ?thesis
    by (simp add: path_join_def OUTPUT_FOLDER_def)
next
  case (Cons c cs)
  with basename_no_slash [of p] have "c \<noteq> CHR ''/''"
    by auto
  with Cons show ?thesis
    by (simp add: path_join_def OUTPUT_FOLDER_def)
qed

text \<open>
  C3. At every wall-clock time, the output path is \<^verbatim>\<open>./output\<close> joined with the base
  name of the source, \<^verbatim>\<open>_clip_\<close>, the time stamp \<^verbatim>\<open>YYYYMMDD_HHMMSS\<close> and
  \<^verbatim>\<open>.mp4\<close>, and this is the last argument \<^verbatim>\<open>process_extraction\<close> hands to the tool;
  \<^verbatim>\<open>clip.mp4\<close> at 2025-02-27 16:10:00 gives \<^verbatim>\<open>clip.mp4_clip_20250227_161000.mp4\<close>.
\<close>

theorem output_file_name:
  assumes "valid_datetime (now e)"
  shows "output_file (now e) input_file
           = ''./output/'' @ basename input_file @ ''_clip_'' @ spec_timestamp (now e) @ ''.mp4''
    \<and> fst (process_extraction e input_file start_time end_time)
        = [SubprocessRun
             [''ffmpeg'', ''-i'', input_file, ''-ss'', py_str start_time, ''-to'', py_str end_time,
              ''-c'', ''copy'',
              ''./output/'' @ basename input_file @ ''_clip_'' @ spec_timestamp (now e) @ ''.mp4'']]"
proof -
  from assms have "output_file (now e) input_file
      = ''./output/'' @ basename input_file @ ''_clip_'' @ spec_timestamp (now e) @ ''.mp4''"
    by (simp add: output_file_def strftime_spec path_join_output)
  then show ?thesis
    by (simp add: process_extraction_def ffmpeg_args_def Let_def split: run_result.split)
qed

theorem output_file_name_witness:
  "output_file \<lparr>year = 2025, month = 2, day = 27, hour = 16, minute = 10, second = 0\<rparr> ''clip.mp4''
     = ''./output/clip.mp4_clip_20250227_161000.mp4''"
proof -
  define e where "e = \<lparr>now = \<lparr>year = 2025, month = 2, day = 27, hour = 16, minute = 10, second = 0\<rparr>,
     subprocess_run = tool_exits 0\<rparr>"
  have v: "valid_datetime (now e)"
    by (simp add: e_def valid_datetime_def)
  have b: "basename ''clip.mp4'' = ''clip.mp4''"
    by code_simp
  have t: "spec_timestamp \<lparr>year = 2025, month = 2, day = 27, hour = 16, minute = 10, second = 0\<rparr>
      = ''20250227_161000''"
    by code_simp
  from output_file_name [OF v, of "''clip.mp4''"] show ?thesis
    by (simp add: e_def b t)
qed

section \<open>What every reachable session satisfies\<close>

lemma combo_at_update:
  "combo_at (l[p := Combo c]) i = (if i = p \<and> p < length l then Inr c else combo_at l i)"
  by (auto simp: combo_at_def)

lemma frame_combos_ok_iff:
  "frame_combos l \<noteq> Inl AttributeError \<longleftrightarrow>
     (\<exists>a b c d e f. combo_at l 1 = Inr a \<and> combo_at l 3 = Inr b \<and> combo_at l 5 = Inr c
        \<and> combo_at l 8 = Inr d \<and> combo_at l 10 = Inr e \<and> combo_at l 12 = Inr f)"
  by (auto simp: frame_combos_def split: sum.splits)

lemma frame_combos_update:
  "frame_combos l \<noteq> Inl AttributeError \<Longrightarrow> frame_combos (l[p := Combo c]) \<noteq> Inl AttributeError"
  unfolding frame_combos_ok_iff by (auto simp: combo_at_update)

lemma session_inv_init: "session_inv init_session"
  by (simp add: session_inv_def init_session_def)

lemma session_inv_add_one:
  assumes "session_inv s" and "file \<noteq> []" and "file \<notin> set (video_list s)"
  shows "session_inv (add_video_ui file (s\<lparr>video_list := video_list s @ [file]\<rparr>))"
  using assms by (auto simp: session_inv_def add_video_ui_def frame_combos_new)

lemma session_inv_add_videos:
  "session_inv s \<Longrightarrow> [] \<notin> set files \<Longrightarrow> session_inv (add_videos files s)"
proof (induction files arbitrary: s)
  case Nil
  then show ?case by simp
next
  case (Cons f fs)
  then have "session_inv (if f \<notin> set (video_list s)
        then add_video_ui f (s\<lparr>video_list := video_list s @ [f]\<rparr>) else s)"
    by (auto intro: session_inv_add_one)
  with Cons show ?case
    by simp
qed

lemma session_inv_setCurrentText:
  assumes "session_inv s"
  shows "session_inv (setCurrentText r p t s)"
proof (cases "r < length (video_list_widget s) \<and> p < length (time_layout (video_list_widget s ! r))
    \<and> (\<exists>c. time_layout (video_list_widget s ! r) ! p = Combo c)")
  case False
  with assms show ?thesis
    by (auto simp: setCurrentText_def Let_def split: layout_item.splits)
next
  case True
  then obtain c where r: "r < length (video_list_widget s)"
    and p: "p < length (time_layout (video_list_widget s ! r))"
    and c: "time_layout (video_list_widget s ! r) ! p = Combo c"
    by auto
  define frame where "frame = video_list_widget s ! r"
  define frame' where
    "frame' = frame\<lparr>time_layout := (time_layout frame)[p := Combo (c\<lparr>current_text := t\<rparr>)]\<rparr>"
  have eq: "setCurrentText r p t s = s\<lparr>video_list_widget := (video_list_widget s)[r := frame']\<rparr>"
    using r p c by (simp add: setCurrentText_def Let_def frame_def frame'_def)
  from assms r have ok: "frame_combos (time_layout frame) \<noteq> Inl AttributeError"
    by (simp add: session_inv_def list_all_length frame_def)
  then have ok': "frame_combos (time_layout frame') \<noteq> Inl AttributeError"
    by (simp add: frame'_def frame_combos_update)
  have lab: "map video_label ((video_list_widget s)[r := frame']) = map video_label (video_list_widget s)"
  proof (rule nth_equalityI)
    fix i
    assume "i < length (map video_label ((video_list_widget s)[r := frame']))"
    then show "map video_label ((video_list_widget s)[r := frame']) ! i
        = map video_label (video_list_widget s) ! i"
      by (cases "i = r") (simp_all add: frame'_def frame_def)
  qed simp
  from assms ok' have "list_all (\<lambda>f. frame_combos (time_layout f) \<noteq> Inl AttributeError)
      ((video_list_widget s)[r := frame'])"
    by (auto simp: session_inv_def list_all_iff dest: set_update_subset_insert [THEN subsetD])
  with assms lab show ?thesis
    by (simp add: eq session_inv_def)
qed

lemma reachable_inv: "reachable s \<Longrightarrow> session_inv s"
proof (induction rule: reachable.induct)
  case start
  show ?case by (rule session_inv_init)
next
  case (add s files)
  then show ?case by (simp add: session_inv_add_videos)
next
  case (focus s r p c)
  then show ?case by (simp add: session_inv_def focusInEvent_def)
next
  case (quick_insert s v)
  then show ?case
    by (simp add: handle_quick_insert_def session_inv_setCurrentText split: option.split)
next
  case (edit s r p t)
  then show ?case by (simp add: session_inv_setCurrentText)
qed

section \<open>Adding files\<close>

lemma count_list_distinct: "distinct xs \<Longrightarrow> x \<in> set xs \<Longrightarrow> count_list xs x = 1"
  by (induction xs) auto

lemma new_frame_times:
  "in_time \<lparr>video_label = l, time_layout = new_time_layout\<rparr> = 0"
  "out_time \<lparr>video_label = l, time_layout = new_time_layout\<rparr> = 0"
  by (simp_all add: in_time_def out_time_def frame_combos_new get_selected_time_def wheel_text
      safe_int_00 case_prod_beta)

lemma add_videos_present: "path \<in> set (video_list s) \<Longrightarrow> add_videos [path] s = s"
  by simp

lemma add_videos_absent:
  "path \<notin> set (video_list s) \<Longrightarrow>
     add_videos [path] s =
       s\<lparr>video_list := video_list s @ [path],
         video_list_widget := video_list_widget s @
           [\<lparr>video_label = label_icon @ basename path, time_layout = new_time_layout\<rparr>]\<rparr>"
  by (simp add: add_video_ui_def)

text \<open>
  C7. In every session, adding a path that is already tracked changes nothing; adding
  the same path twice (in two calls or in one selection) is the same as adding it once
  and leaves exactly one entry for it; a path that was not tracked is appended, with a
  new row whose IN and OUT times are both 0.
\<close>

theorem add_videos_idempotent:
  assumes "reachable s"
  shows "(path \<in> set (video_list s) \<longrightarrow> add_videos [path] s = s)
    \<and> add_videos [path] (add_videos [path] s) = add_videos [path] s
    \<and> add_videos [path, path] s = add_videos [path] s
    \<and> count_list (video_list (add_videos [path] (add_videos [path] s))) path = 1
    \<and> (path \<notin> set (video_list s) \<longrightarrow>
         video_list (add_videos [path] s) = video_list s @ [path]
         \<and> (\<exists>frame. video_list_widget (add_videos [path] s) = video_list_widget s @ [frame]
               \<and> in_time frame = 0 \<and> out_time frame = 0))"
proof -
  from assms have d: "distinct (video_list s)"
    by (auto dest: reachable_inv simp: session_inv_def)
  have in_after: "path \<in> set (video_list (add_videos [path] s))"
    by (cases "path \<in> set (video_list s)") (simp_all add: add_video_ui_def)
  then have twice: "add_videos [path] (add_videos [path] s) = add_videos [path] s"
    by (rule add_videos_present)
  have once: "add_videos [path, path] s = add_videos [path] s"
    by (cases "path \<in> set (video_list s)") (simp_all add: add_video_ui_def)
  have "distinct (video_list (add_videos [path] s))"
    using d by (cases "path \<in> set (video_list s)") (simp_all add: add_video_ui_def)
  with in_after have "count_list (video_list (add_videos [path] s)) path = 1"
    by (simp add: count_list_distinct)
  with twice once show ?thesis
    by (auto simp: add_videos_present add_videos_absent new_frame_times simp del: add_videos.simps)
qed

theorem add_videos_idempotent_witness:
  "add_videos [''/v/a.mp4''] (add_videos [''/v/a.mp4''] init_session)
     = add_videos [''/v/a.mp4''] init_session
   \<and> count_list (video_list (add_videos [''/v/a.mp4''] (add_videos [''/v/a.mp4''] init_session)))
       ''/v/a.mp4'' = 1
   \<and> video_list (add_videos [''/v/a.mp4''] init_session) = [''/v/a.mp4'']"
proof -
  have "''/v/a.mp4'' \<notin> set (video_list init_session)"
    by (simp add: init_session_def)
  with add_videos_idempotent [OF reachable.start, of "''/v/a.mp4''"] show ?thesis
    by (simp add: init_session_def del: add_videos.simps)
qed

section \<open>Resolving rows\<close>

lemma label_icon_not_Nil: "label_icon \<noteq> []"
  by (simp add: label_icon_def)

lemma str_remove_all_prefix:
  "old \<noteq> [] \<Longrightarrow> str_remove_all old (old @ s) = str_remove_all old s"
  by (subst str_remove_all.simps) simp

lemma str_remove_all_absent:
  "old \<noteq> [] \<Longrightarrow> \<not> occurs old s \<Longrightarrow> str_remove_all old s = s"
proof (induction s)
  case Nil
  then show ?case
    by (subst str_remove_all.simps) auto
next
  case (Cons c cs)
  then have "take (length old) (c # cs) \<noteq> old" and "str_remove_all old cs = cs"
    by simp_all
  then show ?case
    by (subst str_remove_all.simps) simp
qed

lemma strip_title: "\<not> occurs label_icon b \<Longrightarrow> str_remove_all label_icon (label_icon @ b) = b"
  by (simp add: str_remove_all_prefix str_remove_all_absent label_icon_not_Nil)

lemma row_label:
  assumes "session_inv s" and "i < length (video_list s)"
  shows "video_label (video_list_widget s ! i) = label_icon @ basename (video_list s ! i)"
    and "i < length (video_list_widget s)"
    and "frame_combos (time_layout (video_list_widget s ! i)) \<noteq> Inl AttributeError"
proof -
  from assms(1) have m: "map video_label (video_list_widget s)
      = map (\<lambda>p. label_icon @ basename p) (video_list s)"
    by (simp add: session_inv_def)
  then have "length (video_list_widget s) = length (video_list s)"
    by (metis length_map)
  with assms(2) show len: "i < length (video_list_widget s)"
    by simp
  from m have "map video_label (video_list_widget s) ! i
      = map (\<lambda>p. label_icon @ basename p) (video_list s) ! i"
    by simp
  with len assms(2) show "video_label (video_list_widget s ! i)
      = label_icon @ basename (video_list s ! i)"
    by simp
  from assms(1) len show "frame_combos (time_layout (video_list_widget s ! i)) \<noteq> Inl AttributeError"
    by (simp add: session_inv_def list_all_length)
qed

lemma find_first_distinct:
  assumes "distinct (map f xs)" and "i < length xs"
  shows "find (\<lambda>x. f x = f (xs ! i)) xs = Some (xs ! i)"
proof -
  have "\<forall>j<i. f (xs ! j) \<noteq> f (xs ! i)"
  proof (intro allI impI)
    fix j
    assume "j < i"
    with assms(2) have "j < length (map f xs)" "i < length (map f xs)" "j \<noteq> i"
      by simp_all
    with assms(1) have "map f xs ! j \<noteq> map f xs ! i"
      by (simp only: nth_eq_iff_index_eq not_False_eq_True)
    with \<open>j < i\<close> assms(2) show "f (xs ! j) \<noteq> f (xs ! i)"
      by simp
  qed
  with assms(2) show ?thesis
    unfolding find_Some_iff by blast
qed

lemma resolve_path_own:
  assumes "session_inv s" and "i < length (video_list s)"
    and "distinct (map basename (video_list s))"
    and "\<not> occurs label_icon (basename (video_list s ! i))"
  shows "resolve_path (video_list s) (video_list_widget s ! i) = Some (video_list s ! i)"
  using assms by (simp add: resolve_path_def row_label strip_title find_first_distinct)

section \<open>The loop over the rows\<close>

lemma extract_rows_no_exception:
  assumes "\<forall>(i, frame) \<in> set (enumerate k frames). snd (extract_row (envs i) vl frame) = None"
  shows "extract_rows envs vl k frames
     = (concat (map (\<lambda>(i, frame). fst (extract_row (envs i) vl frame)) (enumerate k frames)), None)"
  using assms
proof (induction frames arbitrary: k)
  case Nil
  show ?case by simp
next
  case (Cons frame frames)
  then have "snd (extract_row (envs k) vl frame) = None"
    and "extract_rows envs vl (Suc k) frames
     = (concat (map (\<lambda>(i, frame). fst (extract_row (envs i) vl frame)) (enumerate (Suc k) frames)),
        None)"
    by simp_all
  then show ?case
    by (cases "extract_row (envs k) vl frame") simp
qed

lemma enumerate_nth: "enumerate 0 xs = map (\<lambda>i. (i, xs ! i)) [0..<length xs]"
proof -
  have "enumerate 0 (map (nth xs) [0..<length xs]) = map (\<lambda>i. (i, xs ! i)) [0..<length xs]"
    by (rule enumerate_map_upt)
  then show ?thesis
    by (simp add: map_nth)
qed

lemma extract_rows_all:
  assumes "\<forall>i<length frames. snd (extract_row (envs i) vl (frames ! i)) = None"
  shows "extract_rows envs vl 0 frames
     = (concat (map (\<lambda>i. fst (extract_row (envs i) vl (frames ! i))) [0..<length frames]), None)"
proof -
  from assms have "\<forall>(i, frame) \<in> set (enumerate 0 frames). snd (extract_row (envs i) vl frame) = None"
    by (auto simp: enumerate_nth)
  then have "extract_rows envs vl 0 frames
     = (concat (map (\<lambda>(i, frame). fst (extract_row (envs i) vl frame)) (enumerate 0 frames)), None)"
    by (rule extract_rows_no_exception)
  then show ?thesis
    by (simp add: enumerate_nth comp_def)
qed

lemma extract_frame_cases:
  assumes "frame_combos (time_layout frame) \<noteq> Inl AttributeError"
  shows "extract_frame e p frame =
    (if in_time frame \<ge> out_time frame
     then ([Warning ''Invalid Time'' ''OUT time must be greater than IN time.''], None)
     else (case subprocess_run e (ffmpeg_args (now e) p (in_time frame) (out_time frame)) of
             Completed rc \<Rightarrow>
               ([SubprocessRun (ffmpeg_args (now e) p (in_time frame) (out_time frame)),
                 Information ''Done'' (''Extraction completed for '' @ basename p @ ''!'')], None)
           | Raised x \<Rightarrow>
               ([SubprocessRun (ffmpeg_args (now e) p (in_time frame) (out_time frame))], Some x)))"
proof -
  from assms obtain a b c d f g where "frame_combos (time_layout frame) = Inr (a, b, c, d, f, g)"
    by (cases "frame_combos (time_layout frame)") (auto simp: frame_combos_def split: sum.splits)
  then show ?thesis
    by (simp add: extract_frame_def extract_video_def process_extraction_def in_time_def
        out_time_def Let_def split: run_result.split)
qed

lemma resolve_path_find:
  "resolve_path vl frame = find (\<lambda>path. basename path = str_remove_all label_icon (video_label frame)) vl"
  by (simp add: resolve_path_def)

lemma resolve_path_never_later:
  assumes "distinct vl" and "i < j" and "j < length vl" and "basename (vl ! i) = basename (vl ! j)"
  shows "resolve_path vl frame \<noteq> Some (vl ! j)"
proof
  assume "resolve_path vl frame = Some (vl ! j)"
  then obtain k where k: "k < length vl" "vl ! j = vl ! k"
    and b: "basename (vl ! k) = str_remove_all label_icon (video_label frame)"
    and m: "\<forall>m<k. basename (vl ! m) \<noteq> str_remove_all label_icon (video_label frame)"
    unfolding resolve_path_find find_Some_iff by blast
  from assms(1,3) k have "k = j"
    by (simp add: nth_eq_iff_index_eq)
  with assms(2) m have "basename (vl ! i) \<noteq> str_remove_all label_icon (video_label frame)"
    by simp
  with b \<open>k = j\<close> assms(4) show False
    by simp
qed

lemma ffmpeg_args_input: "ffmpeg_args t p a b ! 2 = p"
  by (simp add: ffmpeg_args_def)

lemma extract_video_run_input:
  assumes "SubprocessRun argv \<in> set (fst (extract_video e p a b c d f g))"
  shows "argv ! 2 = p"
  using assms
  by (auto simp: extract_video_def process_extraction_def Let_def ffmpeg_args_input
      split: if_splits run_result.splits)

lemma extract_row_run_input:
  assumes "SubprocessRun argv \<in> set (fst (extract_row e vl frame))"
  shows "resolve_path vl frame = Some (argv ! 2)"
  using assms
  by (auto simp: extract_row_def extract_frame_def split: option.splits if_splits sum.splits
      dest: extract_video_run_input)

lemma extract_rows_run_input:
  assumes "SubprocessRun argv \<in> set (fst (extract_rows envs vl k frames))"
  shows "\<exists>frame. resolve_path vl frame = Some (argv ! 2)"
  using assms
proof (induction frames arbitrary: k)
  case Nil
  then show ?case by simp
next
  case (Cons frame frames)
  obtain evs r where row: "extract_row (envs k) vl frame = (evs, r)"
    by (cases "extract_row (envs k) vl frame")
  obtain evs' r' where rest: "extract_rows envs vl (Suc k) frames = (evs', r')"
    by (cases "extract_rows envs vl (Suc k) frames")
  from Cons.prems row rest
  have "SubprocessRun argv \<in> set evs \<or> SubprocessRun argv \<in> set evs'"
    by (cases r) auto
  then show ?case
  proof
    assume "SubprocessRun argv \<in> set evs"
    with row have "SubprocessRun argv \<in> set (fst (extract_row (envs k) vl frame))"
      by simp
    then show ?thesis
      by (blast dest: extract_row_run_input)
  next
    assume "SubprocessRun argv \<in> set evs'"
    with rest have "SubprocessRun argv \<in> set (fst (extract_rows envs vl (Suc k) frames))"
      by simp
    then show ?thesis
      by (rule Cons.IH)
  qed
qed

section \<open>Examples of sessions\<close>

lemma example_paths:
  "basename ''/v/a.mp4'' = ''a.mp4''" "basename ''/v/b.mp4'' = ''b.mp4''"
  "basename ''/v/c.mp4'' = ''c.mp4''"
  "basename ''/a/x.mp4'' = ''x.mp4''" "basename ''/b/x.mp4'' = ''x.mp4''"
  "basename ''/c/y.mp4'' = ''y.mp4''"
  "\<not> occurs label_icon ''a.mp4''" "\<not> occurs label_icon ''b.mp4''" "\<not> occurs label_icon ''c.mp4''"
  "\<not> occurs label_icon ''x.mp4''" "\<not> occurs label_icon ''y.mp4''"
  by code_simp+

lemma example_safe_int: "safe_int ''10'' = 10" "safe_int ''20'' = 20"
  by code_simp+

lemma example_py_str: "py_str 0 = ''0''" "py_str 10 = ''10''" "py_str 20 = ''20''"
  by code_simp+

lemma example_outputs:
  "output_file \<lparr>year = 2025, month = 2, day = 27, hour = 16, minute = 10, second = 0\<rparr> ''/v/a.mp4''
     = ''./output/a.mp4_clip_20250227_161000.mp4''"
  "output_file \<lparr>year = 2025, month = 2, day = 27, hour = 16, minute = 10, second = 0\<rparr> ''/v/c.mp4''
     = ''./output/c.mp4_clip_20250227_161000.mp4''"
  "output_file \<lparr>year = 2025, month = 2, day = 27, hour = 16, minute = 10, second = 0\<rparr> ''/a/x.mp4''
     = ''./output/x.mp4_clip_20250227_161000.mp4''"
  by code_simp+

text \<open>A frame whose OUT seconds box was edited, the other boxes as created.\<close>

lemma edited_frame_times:
  "frame_combos (new_time_layout[12 := Combo c])
     = Inr (fst create_time_wheels, fst (snd create_time_wheels), snd (snd create_time_wheels),
            fst create_time_wheels, fst (snd create_time_wheels), c)"
  "in_time \<lparr>video_label = l, time_layout = new_time_layout[12 := Combo c]\<rparr> = 0"
  "out_time \<lparr>video_label = l, time_layout = new_time_layout[12 := Combo c]\<rparr>
     = safe_int (current_text c)"
  by (simp_all add: new_time_layout_eq frame_combos_def combo_at_def in_time_def out_time_def
      get_selected_time_def wheel_text safe_int_00)

lemma icon_paths:
  "basename (CHR ''/'' # CHR ''a'' # CHR ''/'' # label_icon @ ''x.mp4'') = label_icon @ ''x.mp4''"
  "basename (CHR ''/'' # CHR ''b'' # CHR ''/'' # label_icon @ ''x.mp4'') = label_icon @ ''x.mp4''"
  "basename (CHR ''/'' # CHR ''v'' # CHR ''/'' # label_icon @ ''a.mp4'') = label_icon @ ''a.mp4''"
  by code_simp+

lemma icon_differs:
  "CHR ''/'' # CHR ''a'' # CHR ''/'' # label_icon @ ''x.mp4''
     \<noteq> CHR ''/'' # CHR ''b'' # CHR ''/'' # label_icon @ ''x.mp4''"
  "CHR ''/'' # CHR ''v'' # CHR ''/'' # label_icon @ ''a.mp4'' \<noteq> ''/v/b.mp4''"
  by code_simp+

lemma icon_stripped:
  "str_remove_all label_icon (label_icon @ label_icon @ ''x.mp4'') = ''x.mp4''"
  "str_remove_all label_icon (label_icon @ label_icon @ ''a.mp4'') = ''a.mp4''"
  "str_remove_all label_icon (label_icon @ ''x.mp4'') = ''x.mp4''"
  "str_remove_all label_icon (label_icon @ ''y.mp4'') = ''y.mp4''"
  "str_remove_all label_icon (label_icon @ ''a.mp4'') = ''a.mp4''"
  "str_remove_all label_icon (label_icon @ ''b.mp4'') = ''b.mp4''"
  "str_remove_all label_icon (label_icon @ ''c.mp4'') = ''c.mp4''"
  by (simp_all add: str_remove_all_prefix str_remove_all_absent label_icon_not_Nil example_paths
      del: occurs.simps)

section \<open>Extracting all videos\<close>

text \<open>
  C8 (as amended). In every session whose tracked paths have pairwise different base
  names, none of them containing the sign that starts a title, and in which no call of
  the external tool raises, \<^verbatim>\<open>extract_all_videos\<close> performs the extraction of every
  entry, with the entry's own path and selectors, one after the other in list order, and
  ends without an exception. An entry with an invalid range contributes only the
  warning; every other entry contributes its call of the tool and its \<^verbatim>\<open>Done\<close> box,
  wherever the invalid entries stand.
\<close>

theorem extract_all_videos_every_entry:
  assumes "reachable s"
    and "distinct (map basename (video_list s))"
    and "\<forall>p \<in> set (video_list s). \<not> occurs label_icon (basename p)"
    and "\<forall>i argv x. subprocess_run (envs i) argv \<noteq> Raised x"
  shows "extract_all_videos envs s =
      (concat (map (\<lambda>i. fst (extract_frame (envs i) (video_list s ! i) (video_list_widget s ! i)))
                 [0..<length (video_list s)]), None)
    \<and> (\<forall>k<length (video_list s).
          in_time (video_list_widget s ! k) \<ge> out_time (video_list_widget s ! k) \<longrightarrow>
          extract_frame (envs k) (video_list s ! k) (video_list_widget s ! k)
            = ([Warning ''Invalid Time'' ''OUT time must be greater than IN time.''], None))
    \<and> (\<forall>k<length (video_list s).
          in_time (video_list_widget s ! k) < out_time (video_list_widget s ! k) \<longrightarrow>
          fst (extract_frame (envs k) (video_list s ! k) (video_list_widget s ! k))
            = [SubprocessRun (ffmpeg_args (now (envs k)) (video_list s ! k)
                 (in_time (video_list_widget s ! k)) (out_time (video_list_widget s ! k))),
               Information ''Done''
                 (''Extraction completed for '' @ basename (video_list s ! k) @ ''!'')])"
proof -
  from assms(1) have inv: "session_inv s"
    by (rule reachable_inv)
  then have len: "length (video_list_widget s) = length (video_list s)"
    by (metis session_inv_def length_map)
  have row: "extract_row (envs i) (video_list s) (video_list_widget s ! i)
      = extract_frame (envs i) (video_list s ! i) (video_list_widget s ! i)"
    if "i < length (video_list s)" for i
  proof -
    from that assms(3) have "\<not> occurs label_icon (basename (video_list s ! i))"
      by simp
    with inv that assms(2)
    have "resolve_path (video_list s) (video_list_widget s ! i) = Some (video_list s ! i)"
      by (simp add: resolve_path_own)
    moreover from inv that have "video_list s ! i \<noteq> []"
      by (metis session_inv_def nth_mem)
    ultimately show ?thesis
      by (simp add: extract_row_def)
  qed
  have frame: "extract_frame (envs i) (video_list s ! i) (video_list_widget s ! i) =
    (if in_time (video_list_widget s ! i) \<ge> out_time (video_list_widget s ! i)
     then ([Warning ''Invalid Time'' ''OUT time must be greater than IN time.''], None)
     else ([SubprocessRun (ffmpeg_args (now (envs i)) (video_list s ! i)
                 (in_time (video_list_widget s ! i)) (out_time (video_list_widget s ! i))),
            Information ''Done''
              (''Extraction completed for '' @ basename (video_list s ! i) @ ''!'')], None))"
    if "i < length (video_list s)" for i
  proof -
    from inv that have "frame_combos (time_layout (video_list_widget s ! i)) \<noteq> Inl AttributeError"
      by (rule row_label)
    then show ?thesis
      using assms(4) by (simp add: extract_frame_cases split: run_result.split)
  qed
  have "\<forall>i<length (video_list_widget s).
      snd (extract_row (envs i) (video_list s) (video_list_widget s ! i)) = None"
    by (simp add: len row frame)
  then have "extract_rows envs (video_list s) 0 (video_list_widget s)
     = (concat (map (\<lambda>i. fst (extract_row (envs i) (video_list s) (video_list_widget s ! i)))
          [0..<length (video_list_widget s)]), None)"
    by (rule extract_rows_all)
  moreover have "map (\<lambda>i. fst (extract_row (envs i) (video_list s) (video_list_widget s ! i)))
          [0..<length (video_list_widget s)]
      = map (\<lambda>i. fst (extract_frame (envs i) (video_list s ! i) (video_list_widget s ! i)))
          [0..<length (video_list s)]"
    by (rule map_cong) (simp_all add: len row)
  ultimately have "extract_all_videos envs s =
      (concat (map (\<lambda>i. fst (extract_frame (envs i) (video_list s ! i) (video_list_widget s ! i)))
                 [0..<length (video_list s)]), None)"
    by (simp add: extract_all_videos_def)
  then show ?thesis
    by (simp add: frame)
qed

theorem extract_all_videos_every_entry_witness:
  "extract_all_videos
     (\<lambda>i. \<lparr>now = \<lparr>year = 2025, month = 2, day = 27, hour = 16, minute = 10, second = 0\<rparr>,
           subprocess_run = tool_exits 1\<rparr>)
     (setCurrentText 2 12 ''20'' (setCurrentText 0 12 ''10''
        (add_videos [''/v/a.mp4'', ''/v/b.mp4'', ''/v/c.mp4''] init_session)))
   = ([SubprocessRun [''ffmpeg'', ''-i'', ''/v/a.mp4'', ''-ss'', ''0'', ''-to'', ''10'', ''-c'', ''copy'',
         ''./output/a.mp4_clip_20250227_161000.mp4''],
       Information ''Done'' ''Extraction completed for a.mp4!'',
       Warning ''Invalid Time'' ''OUT time must be greater than IN time.'',
       SubprocessRun [''ffmpeg'', ''-i'', ''/v/c.mp4'', ''-ss'', ''0'', ''-to'', ''20'', ''-c'', ''copy'',
         ''./output/c.mp4_clip_20250227_161000.mp4''],
       Information ''Done'' ''Extraction completed for c.mp4!''],
      None)"
proof -
  let ?s = "setCurrentText 2 12 ''20'' (setCurrentText 0 12 ''10''
        (add_videos [''/v/a.mp4'', ''/v/b.mp4'', ''/v/c.mp4''] init_session))"
  let ?envs = "\<lambda>i::nat. \<lparr>now = \<lparr>year = 2025, month = 2, day = 27, hour = 16, minute = 10, second = 0\<rparr>,
           subprocess_run = tool_exits 1\<rparr>"
  have s: "?s = \<lparr>video_list = [''/v/a.mp4'', ''/v/b.mp4'', ''/v/c.mp4''],
      video_list_widget =
        [\<lparr>video_label = label_icon @ ''a.mp4'',
          time_layout = new_time_layout
            [12 := Combo ((snd (snd create_time_wheels))\<lparr>current_text := ''10''\<rparr>)]\<rparr>,
         \<lparr>video_label = label_icon @ ''b.mp4'', time_layout = new_time_layout\<rparr>,
         \<lparr>video_label = label_icon @ ''c.mp4'',
          time_layout = new_time_layout
            [12 := Combo ((snd (snd create_time_wheels))\<lparr>current_text := ''20''\<rparr>)]\<rparr>],
      current_combo = None\<rparr>"
    by (simp add: init_session_def add_video_ui_def setCurrentText_def example_paths)
       (simp add: new_time_layout_eq)
  have r: "reachable ?s"
    by (intro reachable.edit reachable.add reachable.start) simp
  have d: "distinct (map basename (video_list ?s))"
    unfolding s by (simp add: example_paths)
  have o: "\<forall>p \<in> set (video_list ?s). \<not> occurs label_icon (basename p)"
    unfolding s by (simp add: example_paths del: occurs.simps)
  have t: "\<forall>i argv x. subprocess_run (?envs i) argv \<noteq> Raised x"
    by (simp add: tool_exits_def)
  have u: "[0..<3] = [0, 1, 2]"
    by (simp add: upt_conv_Cons)
  from extract_all_videos_every_entry [OF r d o t, THEN conjunct1] show ?thesis
    unfolding s
    by (simp add: u extract_frame_cases edited_frame_times new_frame_times frame_combos_new
        example_safe_int example_py_str example_paths example_outputs ffmpeg_args_def
        tool_exits_def)
qed

text \<open>
  C8 as stated fails in three ways. With \<^verbatim>\<open>/a/x.mp4\<close>, \<^verbatim>\<open>/b/x.mp4\<close> (both with a
  valid range) and \<^verbatim>\<open>/c/y.mp4\<close> (invalid range), the entry \<^verbatim>\<open>/b/x.mp4\<close> is never
  extracted: the first path is extracted twice. With a first file whose name contains
  the sign and a valid range, and a second entry with an invalid range, the first row is
  passed over and only the warning of the second appears. And when the executable is
  missing, the exception of the first entry ends the loop before the other entries.
\<close>

theorem extract_all_videos_every_entry_counterexample:
  "extract_all_videos
     (\<lambda>i. \<lparr>now = \<lparr>year = 2025, month = 2, day = 27, hour = 16, minute = 10, second = 0\<rparr>,
           subprocess_run = tool_exits 0\<rparr>)
     (setCurrentText 1 12 ''20'' (setCurrentText 0 12 ''10''
        (add_videos [''/a/x.mp4'', ''/b/x.mp4'', ''/c/y.mp4''] init_session)))
   = ([SubprocessRun [''ffmpeg'', ''-i'', ''/a/x.mp4'', ''-ss'', ''0'', ''-to'', ''10'', ''-c'', ''copy'',
         ''./output/x.mp4_clip_20250227_161000.mp4''],
       Information ''Done'' ''Extraction completed for x.mp4!'',
       SubprocessRun [''ffmpeg'', ''-i'', ''/a/x.mp4'', ''-ss'', ''0'', ''-to'', ''20'', ''-c'', ''copy'',
         ''./output/x.mp4_clip_20250227_161000.mp4''],
       Information ''Done'' ''Extraction completed for x.mp4!'',
       Warning ''Invalid Time'' ''OUT time must be greater than IN time.''],
      None)
   \<and> extract_all_videos
     (\<lambda>i. \<lparr>now = \<lparr>year = 2025, month = 2, day = 27, hour = 16, minute = 10, second = 0\<rparr>,
           subprocess_run = tool_exits 0\<rparr>)
     (setCurrentText 0 12 ''10''
        (add_videos [''/v/'' @ label_icon @ ''a.mp4'', ''/v/b.mp4''] init_session))
   = ([Warning ''Invalid Time'' ''OUT time must be greater than IN time.''], None)
   \<and> extract_all_videos
     (\<lambda>i. \<lparr>now = \<lparr>year = 2025, month = 2, day = 27, hour = 16, minute = 10, second = 0\<rparr>,
           subprocess_run = tool_missing\<rparr>)
     (setCurrentText 2 12 ''20'' (setCurrentText 0 12 ''10''
        (add_videos [''/v/a.mp4'', ''/v/b.mp4'', ''/v/c.mp4''] init_session)))
   = ([SubprocessRun [''ffmpeg'', ''-i'', ''/v/a.mp4'', ''-ss'', ''0'', ''-to'', ''10'', ''-c'', ''copy'',
         ''./output/a.mp4_clip_20250227_161000.mp4'']],
      Some OSError)"
proof -
  have s1: "setCurrentText 1 12 ''20'' (setCurrentText 0 12 ''10''
        (add_videos [''/a/x.mp4'', ''/b/x.mp4'', ''/c/y.mp4''] init_session))
    = \<lparr>video_list = [''/a/x.mp4'', ''/b/x.mp4'', ''/c/y.mp4''],
      video_list_widget =
        [\<lparr>video_label = label_icon @ ''x.mp4'',
          time_layout = new_time_layout
            [12 := Combo ((snd (snd create_time_wheels))\<lparr>current_text := ''10''\<rparr>)]\<rparr>,
         \<lparr>video_label = label_icon @ ''x.mp4'',
          time_layout = new_time_layout
            [12 := Combo ((snd (snd create_time_wheels))\<lparr>current_text := ''20''\<rparr>)]\<rparr>,
         \<lparr>video_label = label_icon @ ''y.mp4'', time_layout = new_time_layout\<rparr>],
      current_combo = None\<rparr>"
    by (simp add: init_session_def add_video_ui_def setCurrentText_def example_paths)
       (simp add: new_time_layout_eq)
  have s2: "setCurrentText 0 12 ''10''
        (add_videos [''/v/'' @ label_icon @ ''a.mp4'', ''/v/b.mp4''] init_session)
    = \<lparr>video_list = [''/v/'' @ label_icon @ ''a.mp4'', ''/v/b.mp4''],
      video_list_widget =
        [\<lparr>video_label = label_icon @ label_icon @ ''a.mp4'',
          time_layout = new_time_layout
            [12 := Combo ((snd (snd create_time_wheels))\<lparr>current_text := ''10''\<rparr>)]\<rparr>,
         \<lparr>video_label = label_icon @ ''b.mp4'', time_layout = new_time_layout\<rparr>],
      current_combo = None\<rparr>"
    by (simp add: init_session_def add_video_ui_def setCurrentText_def example_paths icon_paths
        icon_differs)
       (simp add: new_time_layout_eq)
  have s3: "setCurrentText 2 12 ''20'' (setCurrentText 0 12 ''10''
        (add_videos [''/v/a.mp4'', ''/v/b.mp4'', ''/v/c.mp4''] init_session))
    = \<lparr>video_list = [''/v/a.mp4'', ''/v/b.mp4'', ''/v/c.mp4''],
      video_list_widget =
        [\<lparr>video_label = label_icon @ ''a.mp4'',
          time_layout = new_time_layout
            [12 := Combo ((snd (snd create_time_wheels))\<lparr>current_text := ''10''\<rparr>)]\<rparr>,
         \<lparr>video_label = label_icon @ ''b.mp4'', time_layout = new_time_layout\<rparr>,
         \<lparr>video_label = label_icon @ ''c.mp4'',
          time_layout = new_time_layout
            [12 := Combo ((snd (snd create_time_wheels))\<lparr>current_text := ''20''\<rparr>)]\<rparr>],
      current_combo = None\<rparr>"
    by (simp add: init_session_def add_video_ui_def setCurrentText_def example_paths)
       (simp add: new_time_layout_eq)
  show ?thesis
    unfolding s1 s2 s3
    by (simp add: extract_all_videos_def extract_row_def resolve_path_def icon_stripped icon_paths
        label_icon_not_Nil extract_frame_cases edited_frame_times new_frame_times frame_combos_new
        example_safe_int example_py_str example_paths example_outputs ffmpeg_args_def
        tool_exits_def tool_missing_def)
qed

text \<open>
  Rows of paths with the same base name. A row is resolved by looking its title, with
  the sign removed, up among the base names of the tracked paths and taking the first
  match. When two tracked paths have the same base name, and that name does not contain
  the sign, both rows resolve to the same path, the first tracked one with that base
  name. In every session with two such paths (sign or not), no row resolves to the
  later path and no call of the tool has it as input. A row that resolves to no path
  yields no event.
\<close>

theorem extract_all_videos_equal_basenames:
  assumes "reachable s" and "i < j" and "j < length (video_list s)"
    and "basename (video_list s ! i) = basename (video_list s ! j)"
    and "\<not> occurs label_icon (basename (video_list s ! j))"
  shows "resolve_path (video_list s) (video_list_widget s ! i)
           = resolve_path (video_list s) (video_list_widget s ! j)
    \<and> (\<exists>k\<le>i. resolve_path (video_list s) (video_list_widget s ! j) = Some (video_list s ! k)
           \<and> basename (video_list s ! k) = basename (video_list s ! j)
           \<and> (\<forall>m<k. basename (video_list s ! m) \<noteq> basename (video_list s ! j)))
    \<and> (\<forall>frame. resolve_path (video_list s) frame \<noteq> Some (video_list s ! j))
    \<and> (\<forall>argv. SubprocessRun argv \<in> set (fst (extract_all_videos envs s))
           \<longrightarrow> argv ! 2 \<noteq> video_list s ! j)
    \<and> (\<forall>frame e. resolve_path (video_list s) frame = None
           \<longrightarrow> extract_row e (video_list s) frame = ([], None))"
proof -
  from assms(1) have inv: "session_inv s"
    by (rule reachable_inv)
  then have d: "distinct (video_list s)"
    by (simp add: session_inv_def)
  from assms(2,3) have i: "i < length (video_list s)"
    by simp
  let ?b = "basename (video_list s ! j)"
  from inv assms(3,5) have rj: "resolve_path (video_list s) (video_list_widget s ! j)
      = find (\<lambda>path. basename path = ?b) (video_list s)"
    by (simp add: resolve_path_find row_label strip_title)
  from inv i assms(4,5) have ri: "resolve_path (video_list s) (video_list_widget s ! i)
      = find (\<lambda>path. basename path = ?b) (video_list s)"
    by (simp add: resolve_path_find row_label strip_title)
  from i have "video_list s ! i \<in> set (video_list s)"
    by (rule nth_mem)
  with assms(4) have "find (\<lambda>path. basename path = ?b) (video_list s) \<noteq> None"
    unfolding find_None_iff by blast
  then obtain k where k: "k < length (video_list s)" "basename (video_list s ! k) = ?b"
    and f: "find (\<lambda>path. basename path = ?b) (video_list s) = Some (video_list s ! k)"
    and m: "\<forall>m<k. basename (video_list s ! m) \<noteq> ?b"
    by (auto simp: find_Some_iff)
  from m assms(4) have "k \<le> i"
    by (metis not_le)
  with k f m rj have first: "\<exists>k\<le>i. resolve_path (video_list s) (video_list_widget s ! j)
        = Some (video_list s ! k)
      \<and> basename (video_list s ! k) = ?b \<and> (\<forall>m<k. basename (video_list s ! m) \<noteq> ?b)"
    by auto
  have never: "resolve_path (video_list s) frame \<noteq> Some (video_list s ! j)" for frame
    using d assms(2,3,4) by (rule resolve_path_never_later)
  have "argv ! 2 \<noteq> video_list s ! j"
    if "SubprocessRun argv \<in> set (fst (extract_all_videos envs s))" for argv
    using that never by (auto simp: extract_all_videos_def dest: extract_rows_run_input)
  with ri rj first never show ?thesis
    by (simp add: extract_row_def)
qed

theorem extract_all_videos_equal_basenames_witness:
  "resolve_path (video_list (add_videos [''/a/x.mp4'', ''/b/x.mp4''] init_session))
       (video_list_widget (add_videos [''/a/x.mp4'', ''/b/x.mp4''] init_session) ! 0)
     = resolve_path (video_list (add_videos [''/a/x.mp4'', ''/b/x.mp4''] init_session))
         (video_list_widget (add_videos [''/a/x.mp4'', ''/b/x.mp4''] init_session) ! 1)
   \<and> resolve_path (video_list (add_videos [''/a/x.mp4'', ''/b/x.mp4''] init_session))
         (video_list_widget (add_videos [''/a/x.mp4'', ''/b/x.mp4''] init_session) ! 1)
     = Some ''/a/x.mp4''"
proof -
  let ?s = "add_videos [''/a/x.mp4'', ''/b/x.mp4''] init_session"
  have s: "?s = \<lparr>video_list = [''/a/x.mp4'', ''/b/x.mp4''],
      video_list_widget =
        [\<lparr>video_label = label_icon @ ''x.mp4'', time_layout = new_time_layout\<rparr>,
         \<lparr>video_label = label_icon @ ''x.mp4'', time_layout = new_time_layout\<rparr>],
      current_combo = None\<rparr>"
    by (simp add: init_session_def add_video_ui_def example_paths)
  have r: "reachable ?s"
    by (rule reachable.add [OF reachable.start]) simp
  have l: "1 < length (video_list ?s)"
    unfolding s by simp
  have b: "basename (video_list ?s ! 0) = basename (video_list ?s ! 1)"
    unfolding s by (simp add: example_paths)
  have o: "\<not> occurs label_icon (basename (video_list ?s ! 1))"
    unfolding s by (simp add: example_paths del: occurs.simps)
  have e: "resolve_path (video_list ?s) (video_list_widget ?s ! 1) = Some ''/a/x.mp4''"
    unfolding s by (simp add: resolve_path_def icon_stripped example_paths)
  from extract_all_videos_equal_basenames [OF r _ l b o, THEN conjunct1] e show ?thesis
    by simp
qed

text \<open>
  C10. The rows of two tracked paths with the same base name are meant to resolve to
  the first of the two. For two files whose names contain the sign this is not what
  happens: \<^verbatim>\<open>replace\<close> removes the sign from the base name as well as from the
  front of the title, the remaining text \<^verbatim>\<open>x.mp4\<close> is the base name of no tracked
  path, both rows resolve to no path, and \<^verbatim>\<open>extract_all_videos\<close> passes over both
  without any event.
\<close>

theorem extract_all_videos_sign_in_name:
  "reachable (add_videos [''/a/'' @ label_icon @ ''x.mp4'', ''/b/'' @ label_icon @ ''x.mp4''] init_session)
   \<and> video_list (add_videos [''/a/'' @ label_icon @ ''x.mp4'', ''/b/'' @ label_icon @ ''x.mp4'']
        init_session)
       = [''/a/'' @ label_icon @ ''x.mp4'', ''/b/'' @ label_icon @ ''x.mp4'']
   \<and> basename (''/a/'' @ label_icon @ ''x.mp4'') = basename (''/b/'' @ label_icon @ ''x.mp4'')
   \<and> resolve_path [''/a/'' @ label_icon @ ''x.mp4'', ''/b/'' @ label_icon @ ''x.mp4'']
        (video_list_widget (add_videos
           [''/a/'' @ label_icon @ ''x.mp4'', ''/b/'' @ label_icon @ ''x.mp4''] init_session) ! 0)
       = None
   \<and> resolve_path [''/a/'' @ label_icon @ ''x.mp4'', ''/b/'' @ label_icon @ ''x.mp4'']
        (video_list_widget (add_videos
           [''/a/'' @ label_icon @ ''x.mp4'', ''/b/'' @ label_icon @ ''x.mp4''] init_session) ! 1)
       = None
   \<and> extract_all_videos
        (\<lambda>i. \<lparr>now = \<lparr>year = 2025, month = 2, day = 27, hour = 16, minute = 10, second = 0\<rparr>,
              subprocess_run = tool_exits 0\<rparr>)
        (add_videos [''/a/'' @ label_icon @ ''x.mp4'', ''/b/'' @ label_icon @ ''x.mp4''] init_session)
       = ([], None)"
proof -
  have "reachable (add_videos [''/a/'' @ label_icon @ ''x.mp4'', ''/b/'' @ label_icon @ ''x.mp4'']
      init_session)"
    by (rule reachable.add [OF reachable.start]) simp
  then show ?thesis
    by (simp add: init_session_def add_video_ui_def icon_paths icon_differs icon_stripped
        resolve_path_def label_icon_not_Nil extract_all_videos_def extract_row_def)
qed

end
